theory Spec2Isabelle
  imports Complex_Main "HOL-Library.AList" "HOL-Library.Log_Nat"
begin

section \<open>Data model\<close>

text \<open>
  The model follows the hook \<open>useWebRTC\<close> (signalling, peer-connection registry, media
  stream reference) and the page component \<open>Room\<close> (playback state, control protocol).
  One \<open>participant\<close> value holds what one browser tab holds: the props, the refs, the
  React state, and the external objects the code creates or touches (peer connections,
  tracks, the signalling channel's outbound side).

  Every handler runs to completion: an \<open>await\<close> is a point where the platform either
  delivers a value or rejects, and the rest of the handler follows at once.
  Playback times are JavaScript numbers, that is, finite IEEE doubles. A time is held as
  the exact rational value of the double, and arithmetic on times rounds the way double
  arithmetic does (section on doubles below).
\<close>

type_synonym peer_id = string
type_synonym sdp = string
type_synonym candidate = string
type_synonym time = rat

section \<open>JavaScript numbers\<close>

text \<open>
  Double arithmetic on exact values. \<open>ilog2 x\<close> is the binary exponent of a positive \<open>x\<close>
  (\<open>2 powi ilog2 x \<le> x < 2 powi (ilog2 x + 1)\<close>), \<open>round_even\<close> rounds to the nearest
  integer, a tie going to the even one, and \<open>fl x\<close> is \<open>x\<close> rounded to 53 significant bits,
  or to a multiple of \<open>2 powi - 1074\<close> in the subnormal range: the double nearest \<open>x\<close>, before
  overflow is looked at.
\<close>

definition ilog2 :: "rat \<Rightarrow> int" where
  "ilog2 x =
     (let (p, d) = quotient_of x; k = bitlen p - bitlen d
      in if of_int d * (2::rat) powi k \<le> of_int p then k else k - 1)"

definition round_even :: "rat \<Rightarrow> int" where
  "round_even y =
     (let f = \<lfloor>y\<rfloor>; r = y - of_int f
      in if r < 1/2 then f else if 1/2 < r then f + 1 else if even f then f else f + 1)"

definition fl :: "rat \<Rightarrow> rat" where
  "fl x =
     (if x = 0 then 0
      else let q = max (ilog2 \<bar>x\<bar> - 52) (- 1074)
           in of_int (round_even (x / 2 powi q)) * 2 powi q)"

text \<open>
  The times met here are finite (the element's \<open>currentTime\<close>, and the \<open>time\<close> of a message,
  which JSON carries only when finite). The result of an operation on finite doubles is
  a finite double or an infinity (a rounded magnitude of \<open>2 powi 1024\<close> or more
  overflows). \<open>a - b\<close>, \<open>Math.abs\<close> and \<open>>\<close>:
\<close>

datatype number = Finite rat | PosInfinity | NegInfinity

definition to_number :: "rat \<Rightarrow> number" where
  "to_number r =
     (if 2 powi 1024 \<le> \<bar>r\<bar> then (if 0 < r then PosInfinity else NegInfinity) else Finite r)"

definition js_sub :: "rat \<Rightarrow> rat \<Rightarrow> number" where
  "js_sub a b = to_number (fl (a - b))"

fun js_abs :: "number \<Rightarrow> number" where
  "js_abs (Finite r) = Finite \<bar>r\<bar>"
| "js_abs PosInfinity = PosInfinity"
| "js_abs NegInfinity = PosInfinity"

fun js_gt :: "number \<Rightarrow> rat \<Rightarrow> bool" where
  "js_gt (Finite r) c = (c < r)"
| "js_gt PosInfinity c = True"
| "js_gt NegInfinity c = False"

section \<open>Signals, connections, elements\<close>

datatype track_kind = VideoTrack | AudioTrack

record track =
  track_id :: nat
  track_kind :: track_kind

type_synonym stream = "track list"

text \<open>The \<open>control\<close> message: the action together with the payload that action reads.\<close>

datatype control =
    FileUrl string
  | Play
  | Pause
  | Seek time
  | Sync time

datatype signal_type =
    Offer sdp
  | Answer sdp
  | IceCandidate candidate
  | HostStopped
  | HostStarted
  | ViewerReady
  | Control control

record signal =
  sig_type :: signal_type
  sig_from :: peer_id
  sig_to :: "peer_id option"

text \<open>
  An \<open>RTCPeerConnection\<close> as far as the code reads or writes it. \<open>pc_remote\<close> is the
  \<open>remotePeerId\<close> captured by the \<open>onicecandidate\<close> closure installed at creation.
\<close>

record rtc_pc =
  pc_remote :: peer_id
  pc_tracks :: "track list"
  pc_local :: "sdp option"
  pc_remote_desc :: "sdp option"
  pc_candidates :: "candidate list"
  pc_closed :: bool

text \<open>An \<open>HTMLVideoElement\<close>; \<open>v_bound\<close> says that onplay/onpause/onseeked are bound.\<close>

record video =
  currentTime :: time
  paused :: bool
  v_src :: string
  v_srcObject :: "stream option"
  v_muted :: bool
  v_controls :: bool
  v_bound :: bool

datatype stream_mode = Screen | File

text \<open>
  What the browser decides: whether a negotiation step resolves or rejects, whether a
  release call throws, whether \<open>play()\<close> is allowed. The code is verified for every
  platform.
\<close>

record platform =
  createOffer :: "rtc_pc \<Rightarrow> sdp option"
  createAnswer :: "rtc_pc \<Rightarrow> sdp option"
  setLocalDescription :: "rtc_pc \<Rightarrow> sdp \<Rightarrow> bool"
  setRemoteDescription :: "rtc_pc \<Rightarrow> sdp \<Rightarrow> bool"
  addIceCandidate :: "rtc_pc \<Rightarrow> candidate \<Rightarrow> bool"
  stop_throws :: "track \<Rightarrow> bool"
  close_throws :: "rtc_pc \<Rightarrow> bool"
  play_ok :: "video \<Rightarrow> bool"

datatype error =
    StopThrew nat
  | CloseThrew nat
  | CreateOfferRejected
  | CreateAnswerRejected
  | SetLocalRejected
  | SetRemoteRejected
  | UploadThrew

record participant =
  peerId :: peer_id
  isHost :: bool
  peerConnections :: "(peer_id \<times> nat) list"
  channelRef :: "nat option"
  localStreamRef :: "stream option"
  isSharing :: bool
  hasStream :: bool
  videoFileUrl :: "string option"
  streamMode :: stream_mode
  isUploading :: bool
  videoRef :: "video option"
  localVideoRef :: "video option"
  syncInterval :: bool
  onended :: "nat set"
  pcs :: "rtc_pc list"
  ended :: "nat set"
  outbox :: "signal list"

text \<open>
  \<open>peerConnections\<close> is the JavaScript \<open>Map\<close> from peer identity to connection, kept in
  insertion order; its values are indices into \<open>pcs\<close>, the connections ever constructed
  by this participant. \<open>ended\<close> holds the ids of the tracks on which \<open>stop()\<close> has run,
  \<open>onended\<close> the ids of the tracks whose \<open>onended\<close> handler is \<open>handleStopShare\<close>,
  \<open>syncInterval\<close> says that the 5-second interval is scheduled, and \<open>outbox\<close> is every
  payload handed to \<open>channel.send\<close>, oldest first.
\<close>

text \<open>A handler either returns or throws (rejects); the mutations made so far stay.\<close>

datatype result = Done participant | Raised error participant

fun state_of :: "result \<Rightarrow> participant" where
  "state_of (Done s) = s"
| "state_of (Raised e s) = s"

fun returned :: "result \<Rightarrow> bool" where
  "returned (Done s) = True"
| "returned (Raised e s) = False"

fun and_then :: "result \<Rightarrow> (participant \<Rightarrow> result) \<Rightarrow> result" where
  "and_then (Done s) f = f s"
| "and_then (Raised e s) f = Raised e s"

text \<open>JavaScript truthiness of an optional string: set and not empty.\<close>

fun truthy :: "string option \<Rightarrow> bool" where
  "truthy None = False"
| "truthy (Some s) = (s \<noteq> [])"

section \<open>The hook: useWebRTC\<close>

definition sendSignal :: "signal \<Rightarrow> participant \<Rightarrow> participant" where
  "sendSignal payload s =
     (case channelRef s of
        None \<Rightarrow> s
      | Some ch \<Rightarrow> s\<lparr>outbox := outbox s @ [payload]\<rparr>)"

definition sendControlSignal :: "control \<Rightarrow> peer_id option \<Rightarrow> participant \<Rightarrow> participant" where
  "sendControlSignal action to s =
     sendSignal \<lparr>sig_type = Control action, sig_from = peerId s, sig_to = to\<rparr> s"

definition new_pc :: "peer_id \<Rightarrow> rtc_pc" where
  "new_pc remotePeerId =
     \<lparr>pc_remote = remotePeerId, pc_tracks = [], pc_local = None, pc_remote_desc = None,
      pc_candidates = [], pc_closed = False\<rparr>"

text \<open>
  \<open>createPeerConnection\<close>: construct a connection, then \<open>Map.set\<close> it under the remote
  peer (an existing key keeps its place and gets the new value). Returns the new
  connection's index with the state.
\<close>

definition createPeerConnection :: "peer_id \<Rightarrow> participant \<Rightarrow> nat \<times> participant" where
  "createPeerConnection remotePeerId s =
     (let pc = length (pcs s) in
      (pc, s\<lparr>pcs := pcs s @ [new_pc remotePeerId],
              peerConnections := AList.update remotePeerId pc (peerConnections s)\<rparr>))"

definition upd_pc :: "nat \<Rightarrow> (rtc_pc \<Rightarrow> rtc_pc) \<Rightarrow> participant \<Rightarrow> participant" where
  "upd_pc pc f s = (if pc < length (pcs s) then s\<lparr>pcs := (pcs s)[pc := f (pcs s ! pc)]\<rparr> else s)"

definition the_pc :: "participant \<Rightarrow> nat \<Rightarrow> rtc_pc" where
  "the_pc s pc = (if pc < length (pcs s) then pcs s ! pc else new_pc [])"

text \<open>
  \<open>startSharing(customStream)\<close>: \<open>display\<close> is what \<open>getDisplayMedia\<close> resolves to, \<open>None\<close>
  when it rejects (the \<open>catch\<close> returns null and nothing else happens). Returns the
  stream handed back to the caller with the state.
\<close>

definition startSharing ::
  "stream option \<Rightarrow> stream option \<Rightarrow> participant \<Rightarrow> stream option \<times> participant" where
  "startSharing customStream display s =
     (case (case customStream of Some c \<Rightarrow> Some c | None \<Rightarrow> display) of
        None \<Rightarrow> (None, s)
      | Some stream \<Rightarrow>
          (Some stream,
           sendSignal \<lparr>sig_type = HostStarted, sig_from = peerId s, sig_to = None\<rparr>
             (s\<lparr>localStreamRef := Some stream\<rparr>)))"

text \<open>
  \<open>pc.addTrack(track, stream)\<close> for one track. The sender-parameter and codec-preference
  calls that follow in the source are wrapped in try/catch and write nothing the model
  holds.
\<close>

definition addTrack :: "nat \<Rightarrow> track \<Rightarrow> participant \<Rightarrow> participant" where
  "addTrack pc t s = upd_pc pc (\<lambda>p. p\<lparr>pc_tracks := pc_tracks p @ [t]\<rparr>) s"

definition sendOfferToViewer :: "platform \<Rightarrow> peer_id \<Rightarrow> participant \<Rightarrow> result" where
  "sendOfferToViewer pf viewerId s =
     (case localStreamRef s of
        None \<Rightarrow> Done s
      | Some stream \<Rightarrow>
          (let (pc, s1) = createPeerConnection viewerId s;
               s2 = fold (addTrack pc) stream s1
           in case createOffer pf (the_pc s2 pc) of
                None \<Rightarrow> Raised CreateOfferRejected s2
              | Some offer \<Rightarrow>
                  if \<not> setLocalDescription pf (the_pc s2 pc) offer
                  then Raised SetLocalRejected s2
                  else Done (sendSignal
                               \<lparr>sig_type = Offer offer, sig_from = peerId s,
                                sig_to = Some viewerId\<rparr>
                               (upd_pc pc (\<lambda>p. p\<lparr>pc_local := Some offer\<rparr>) s2))))"

text \<open>\<open>stream.getTracks().forEach((t) => t.stop())\<close>: a throw leaves the loop.\<close>

fun stop_tracks :: "platform \<Rightarrow> track list \<Rightarrow> participant \<Rightarrow> result" where
  "stop_tracks pf [] s = Done s"
| "stop_tracks pf (t # ts) s =
     (if stop_throws pf t then Raised (StopThrew (track_id t)) s
      else stop_tracks pf ts (s\<lparr>ended := insert (track_id t) (ended s)\<rparr>))"

text \<open>\<open>peerConnections.current.forEach((pc) => pc.close())\<close>, over the Map's values.\<close>

fun close_all :: "platform \<Rightarrow> nat list \<Rightarrow> participant \<Rightarrow> result" where
  "close_all pf [] s = Done s"
| "close_all pf (pc # rest) s =
     (if close_throws pf (the_pc s pc) then Raised (CloseThrew pc) s
      else close_all pf rest (upd_pc pc (\<lambda>p. p\<lparr>pc_closed := True\<rparr>) s))"

definition stopSharing :: "platform \<Rightarrow> participant \<Rightarrow> result" where
  "stopSharing pf s =
     and_then (case localStreamRef s of
                 None \<Rightarrow> Done s
               | Some stream \<Rightarrow> stop_tracks pf stream s)
       (\<lambda>s1. and_then (close_all pf (map snd (peerConnections s1))
                          (s1\<lparr>localStreamRef := None\<rparr>))
          (\<lambda>s2. Done (sendSignal
                         \<lparr>sig_type = HostStopped, sig_from = peerId s, sig_to = None\<rparr>
                         (s2\<lparr>peerConnections := []\<rparr>))))"

section \<open>The page: Room callbacks handed to the hook\<close>

text \<open>\<open>vid.play().catch(() => {})\<close>: playing starts unless the browser refuses.\<close>

definition play :: "platform \<Rightarrow> video \<Rightarrow> video" where
  "play pf vid = (if play_ok pf vid then vid\<lparr>paused := False\<rparr> else vid)"

text \<open>
  \<open>handleControlReceived\<close>. The literal \<open>0.3\<close> in the drift test denotes the double nearest
  to three tenths, \<open>fl 0.3\<close>.
\<close>

definition handleControlReceived :: "platform \<Rightarrow> control \<Rightarrow> participant \<Rightarrow> participant" where
  "handleControlReceived pf action s =
     (if isHost s then s
      else case videoRef s of
        None \<Rightarrow> s
      | Some vid \<Rightarrow>
          (case action of
             FileUrl url \<Rightarrow>
               s\<lparr>streamMode := File, videoFileUrl := Some url, hasStream := True,
                 videoRef := Some (vid\<lparr>v_srcObject := None, v_src := url,
                                       v_muted := False, v_controls := False\<rparr>)\<rparr>
           | Play \<Rightarrow> s\<lparr>videoRef := Some (play pf vid)\<rparr>
           | Pause \<Rightarrow> s\<lparr>videoRef := Some (vid\<lparr>paused := True\<rparr>)\<rparr>
           | Seek t \<Rightarrow> s\<lparr>videoRef := Some (vid\<lparr>currentTime := t\<rparr>)\<rparr>
           | Sync adminTime \<Rightarrow>
               (let drift = js_abs (js_sub (currentTime vid) adminTime)
                in if js_gt drift (fl 0.3) \<and> \<not> paused vid
                   then s\<lparr>videoRef := Some (vid\<lparr>currentTime := adminTime\<rparr>)\<rparr>
                   else s)))"

definition onStreamReceived :: "platform \<Rightarrow> stream \<Rightarrow> participant \<Rightarrow> participant" where
  "onStreamReceived pf stream s =
     s\<lparr>streamMode := Screen, hasStream := True,
       videoRef := map_option (\<lambda>vid. play pf (vid\<lparr>v_srcObject := Some stream, v_src := []\<rparr>))
                     (videoRef s)\<rparr>"

definition onHostStopped :: "participant \<Rightarrow> participant" where
  "onHostStopped s =
     s\<lparr>hasStream := False,
       videoRef := map_option (\<lambda>vid. vid\<lparr>v_srcObject := None\<rparr>) (videoRef s)\<rparr>"

text \<open>
  The function the effect stores in \<open>onViewerReadyRef\<close>. The guard tests \<open>videoFileUrl\<close>
  for truthiness, so \<open>url\<close> is the URL held. \<open>currentTime || 0\<close> is the current time itself
  for every number, and 0 when the element is missing.
\<close>

definition onViewerReady :: "peer_id \<Rightarrow> participant \<Rightarrow> participant" where
  "onViewerReady viewerId s =
     (if streamMode s = File \<and> isSharing s \<and> truthy (videoFileUrl s)
      then
        (let url = (case videoFileUrl s of None \<Rightarrow> [] | Some u \<Rightarrow> u);
             s1 = sendControlSignal (FileUrl url) (Some viewerId) s;
             s2 = sendControlSignal
                    (Seek (case localVideoRef s of None \<Rightarrow> 0 | Some v \<Rightarrow> currentTime v))
                    (Some viewerId) s1
         in case localVideoRef s of
              None \<Rightarrow> s2
            | Some v \<Rightarrow> if \<not> paused v then sendControlSignal Play (Some viewerId) s2 else s2)
      else s)"

section \<open>Inbound signals\<close>

text \<open>
  \<open>handleSignal\<close>. The source is a chain of \<open>if (type === ... && role) { ...; return }\<close>;
  each test names a different type, so the chain is a case distinction on the type and a
  type met in the wrong role falls through every test. The \<open>candidate\<close> of an
  \<open>ice-candidate\<close> message is an object by its type, hence truthy.
\<close>

definition handleSignal :: "platform \<Rightarrow> signal \<Rightarrow> participant \<Rightarrow> result" where
  "handleSignal pf payload s =
     (if sig_from payload = peerId s then Done s
      else if truthy (sig_to payload) \<and> sig_to payload \<noteq> Some (peerId s) then Done s
      else case sig_type payload of
        HostStarted \<Rightarrow>
          if \<not> isHost s
          then Done (sendSignal \<lparr>sig_type = ViewerReady, sig_from = peerId s, sig_to = None\<rparr> s)
          else Done s
      | ViewerReady \<Rightarrow>
          if isHost s
          then sendOfferToViewer pf (sig_from payload) (onViewerReady (sig_from payload) s)
          else Done s
      | Offer remote_sdp \<Rightarrow>
          if \<not> isHost s
          then
            (let (pc, s1) = createPeerConnection (sig_from payload) s
             in if \<not> setRemoteDescription pf (the_pc s1 pc) remote_sdp
                then Raised SetRemoteRejected s1
                else
                  (let s2 = upd_pc pc (\<lambda>p. p\<lparr>pc_remote_desc := Some remote_sdp\<rparr>) s1
                   in case createAnswer pf (the_pc s2 pc) of
                        None \<Rightarrow> Raised CreateAnswerRejected s2
                      | Some answer \<Rightarrow>
                          if \<not> setLocalDescription pf (the_pc s2 pc) answer
                          then Raised SetLocalRejected s2
                          else Done (sendSignal
                                       \<lparr>sig_type = Answer answer, sig_from = peerId s,
                                        sig_to = Some (sig_from payload)\<rparr>
                                       (upd_pc pc (\<lambda>p. p\<lparr>pc_local := Some answer\<rparr>) s2))))
          else Done s
      | Answer remote_sdp \<Rightarrow>
          if isHost s
          then
            (case map_of (peerConnections s) (sig_from payload) of
               None \<Rightarrow> Done s
             | Some pc \<Rightarrow>
                 if setRemoteDescription pf (the_pc s pc) remote_sdp
                 then Done (upd_pc pc (\<lambda>p. p\<lparr>pc_remote_desc := Some remote_sdp\<rparr>) s)
                 else Raised SetRemoteRejected s)
          else Done s
      | IceCandidate c \<Rightarrow>
          (case map_of (peerConnections s) (sig_from payload) of
             None \<Rightarrow> Done s
           | Some pc \<Rightarrow>
               if addIceCandidate pf (the_pc s pc) c
               then Done (upd_pc pc (\<lambda>p. p\<lparr>pc_candidates := pc_candidates p @ [c]\<rparr>) s)
               else Done s)
      | HostStopped \<Rightarrow>
          if \<not> isHost s
          then
            (let s1 = onHostStopped s
             in and_then (close_all pf (map snd (peerConnections s1)) s1)
                  (\<lambda>s2. Done (s2\<lparr>peerConnections := []\<rparr>)))
          else Done s
      | Control action \<Rightarrow>
          if \<not> isHost s then Done (handleControlReceived pf action s) else Done s)"

text \<open>
  The two guards at the head of \<open>handleSignal\<close>, as a predicate: the signal is not our
  own echo and is not addressed (by a truthy \<open>to\<close>) to somebody else.
\<close>

definition accepted :: "participant \<Rightarrow> signal \<Rightarrow> bool" where
  "accepted s payload \<longleftrightarrow>
     sig_from payload \<noteq> peerId s \<and>
     \<not> (truthy (sig_to payload) \<and> sig_to payload \<noteq> Some (peerId s))"

section \<open>The page: Room handlers\<close>

definition handleStopShare :: "platform \<Rightarrow> participant \<Rightarrow> result" where
  "handleStopShare pf s =
     and_then (stopSharing pf s)
       (\<lambda>s1. Done (s1\<lparr>isSharing := False, hasStream := False, videoFileUrl := None,
                       syncInterval := False,
                       localVideoRef :=
                         map_option (\<lambda>v. v\<lparr>v_srcObject := None, v_src := [],
                                             v_controls := False, v_muted := True\<rparr>)
                           (localVideoRef s1),
                       videoRef :=
                         map_option (\<lambda>v. v\<lparr>v_srcObject := None, v_src := []\<rparr>)
                           (videoRef s1)\<rparr>))"

text \<open>\<open>stream.getVideoTracks()[0]\<close>, if there is one, gets \<open>handleStopShare\<close> as \<open>onended\<close>.\<close>

definition bind_onended :: "stream \<Rightarrow> nat set \<Rightarrow> nat set" where
  "bind_onended stream hs =
     (case filter (\<lambda>t. track_kind t = VideoTrack) stream of
        [] \<Rightarrow> hs
      | t # ts \<Rightarrow> insert (track_id t) hs)"

definition handleStartShare :: "platform \<Rightarrow> stream option \<Rightarrow> participant \<Rightarrow> participant" where
  "handleStartShare pf display s =
     (let s0 = s\<lparr>videoFileUrl := None,
                 localVideoRef :=
                   map_option (\<lambda>v. v\<lparr>v_src := [], v_controls := False, v_muted := True\<rparr>)
                     (localVideoRef s)\<rparr>;
          (got, s1) = startSharing None display s0
      in case got of
           None \<Rightarrow> s1
         | Some stream \<Rightarrow>
             s1\<lparr>isSharing := True, hasStream := True,
                localVideoRef :=
                  map_option (\<lambda>v. play pf (v\<lparr>v_srcObject := Some stream\<rparr>)) (localVideoRef s1),
                onended := bind_onended stream (onended s1)\<rparr>)"

text \<open>What the storage upload does: returns an error, throws, or yields the public URL.\<close>

datatype upload_result = UploadError | UploadThrows | Uploaded string

text \<open>
  \<open>handleFileUpload\<close>; \<open>file\<close> is \<open>e.target.files?.[0]\<close>. \<open>handleStopShare\<close> runs before the
  \<open>try\<close>, so a throw there leaves the handler; inside the \<open>try\<close> every path ends with
  \<open>setIsUploading(false)\<close>.
\<close>

definition handleFileUpload ::
  "platform \<Rightarrow> string option \<Rightarrow> upload_result \<Rightarrow> participant \<Rightarrow> result" where
  "handleFileUpload pf file upload s =
     (case file of
        None \<Rightarrow> Done s
      | Some name \<Rightarrow>
          and_then (if isSharing s then handleStopShare pf s else Done s)
            (\<lambda>s0. let s1 = s0\<lparr>isUploading := True\<rparr> in
                   case upload of
                     UploadError \<Rightarrow> Done (s1\<lparr>isUploading := False\<rparr>)
                   | UploadThrows \<Rightarrow> Done (s1\<lparr>isUploading := False\<rparr>)
                   | Uploaded publicUrl \<Rightarrow>
                       (let s2 = sendControlSignal (FileUrl publicUrl) None
                                   (s1\<lparr>videoFileUrl := Some publicUrl, isSharing := True,
                                        hasStream := True\<rparr>);
                            s3 = (case localVideoRef s2 of
                                    None \<Rightarrow> s2
                                  | Some v \<Rightarrow>
                                      s2\<lparr>localVideoRef :=
                                           Some (play pf (v\<lparr>v_srcObject := None,
                                                            v_src := publicUrl,
                                                            v_controls := True,
                                                            v_muted := False,
                                                            v_bound := True\<rparr>)),
                                         syncInterval := True\<rparr>)
                        in Done (s3\<lparr>isUploading := False\<rparr>))))"

text \<open>The handlers bound on the host's own video element, and the interval's callback.\<close>

definition onplay :: "participant \<Rightarrow> participant" where
  "onplay s = sendControlSignal Play None s"

definition onpause :: "participant \<Rightarrow> participant" where
  "onpause s = sendControlSignal Pause None s"

definition onseeked :: "participant \<Rightarrow> participant" where
  "onseeked s =
     (case localVideoRef s of
        None \<Rightarrow> s
      | Some v \<Rightarrow> sendControlSignal (Seek (currentTime v)) None s)"

definition syncTick :: "participant \<Rightarrow> participant" where
  "syncTick s =
     (case localVideoRef s of
        None \<Rightarrow> s
      | Some v \<Rightarrow> if \<not> paused v then sendControlSignal (Sync (currentTime v)) None s else s)"

section \<open>The remaining callbacks of the hook\<close>

text \<open>The \<open>subscribe\<close> status callback; \<open>subscribed\<close> says the status is SUBSCRIBED.\<close>

definition onSubscribeStatus :: "bool \<Rightarrow> participant \<Rightarrow> participant" where
  "onSubscribeStatus subscribed s =
     (if subscribed \<and> \<not> isHost s
      then sendSignal \<lparr>sig_type = ViewerReady, sig_from = peerId s, sig_to = None\<rparr> s
      else s)"

text \<open>
  The effect's cleanup: unsubscribe, stop the tracks, close and forget the sessions.
  Neither \<open>channelRef\<close> nor \<open>localStreamRef\<close> is reset there.
\<close>

definition effectCleanup :: "platform \<Rightarrow> participant \<Rightarrow> result" where
  "effectCleanup pf s =
     and_then (case localStreamRef s of
                 None \<Rightarrow> Done s
               | Some stream \<Rightarrow> stop_tracks pf stream s)
       (\<lambda>s1. and_then (close_all pf (map snd (peerConnections s1)) s1)
          (\<lambda>s2. Done (s2\<lparr>peerConnections := []\<rparr>)))"

text \<open>\<open>pc.onicecandidate\<close> and \<open>pc.ontrack\<close> of the connection with index \<open>pc\<close>.\<close>

definition onicecandidate :: "nat \<Rightarrow> candidate option \<Rightarrow> participant \<Rightarrow> participant" where
  "onicecandidate pc cand s =
     (case cand of
        None \<Rightarrow> s
      | Some c \<Rightarrow>
          sendSignal \<lparr>sig_type = IceCandidate c, sig_from = peerId s,
                      sig_to = Some (pc_remote (the_pc s pc))\<rparr> s)"

definition ontrack :: "platform \<Rightarrow> stream option \<Rightarrow> participant \<Rightarrow> participant" where
  "ontrack pf stream0 s =
     (case stream0 of
        None \<Rightarrow> s
      | Some stream \<Rightarrow> if \<not> isHost s then onStreamReceived pf stream s else s)"

section \<open>Executions\<close>

text \<open>
  Whatever makes the participant's code run: an inbound broadcast, the effect being set
  up or cleaned, a status of the subscription, an event of a peer connection, a click, a
  file chosen (with what the upload then does), a track ending, an event of the host's
  video element, the interval firing.
\<close>

datatype event =
    Inbound signal
  | EffectSetup nat
  | SubscribeStatus bool
  | EffectCleanup
  | IceEvent nat "candidate option"
  | TrackEvent nat "stream option"
  | ClickStartShare "stream option"
  | ClickStopShare
  | ChooseFile "string option" upload_result
  | ClickMode stream_mode
  | TrackEnded nat
  | VideoPlay
  | VideoPause
  | VideoSeeked time
  | IntervalTick

definition bound_video :: "participant \<Rightarrow> bool" where
  "bound_video s = (case localVideoRef s of None \<Rightarrow> False | Some v \<Rightarrow> v_bound v)"

fun step :: "platform \<Rightarrow> event \<Rightarrow> participant \<Rightarrow> result" where
  "step pf (Inbound payload) s = handleSignal pf payload s"
| "step pf (EffectSetup ch) s = Done (s\<lparr>channelRef := Some ch\<rparr>)"
| "step pf (SubscribeStatus subscribed) s = Done (onSubscribeStatus subscribed s)"
| "step pf EffectCleanup s = effectCleanup pf s"
| "step pf (IceEvent pc cand) s =
     (if pc < length (pcs s) then Done (onicecandidate pc cand s) else Done s)"
| "step pf (TrackEvent pc stream0) s =
     (if pc < length (pcs s) then Done (ontrack pf stream0 s) else Done s)"
| "step pf (ClickStartShare display) s = Done (handleStartShare pf display s)"
| "step pf ClickStopShare s = handleStopShare pf s"
| "step pf (ChooseFile file upload) s = handleFileUpload pf file upload s"
| "step pf (ClickMode m) s = Done (s\<lparr>streamMode := m\<rparr>)"
| "step pf (TrackEnded t) s = (if t \<in> onended s then handleStopShare pf s else Done s)"
| "step pf VideoPlay s =
     (let s1 = s\<lparr>localVideoRef := map_option (\<lambda>v. v\<lparr>paused := False\<rparr>) (localVideoRef s)\<rparr>
      in if bound_video s then Done (onplay s1) else Done s1)"
| "step pf VideoPause s =
     (let s1 = s\<lparr>localVideoRef := map_option (\<lambda>v. v\<lparr>paused := True\<rparr>) (localVideoRef s)\<rparr>
      in if bound_video s then Done (onpause s1) else Done s1)"
| "step pf (VideoSeeked t) s =
     (let s1 = s\<lparr>localVideoRef := map_option (\<lambda>v. v\<lparr>currentTime := t\<rparr>) (localVideoRef s)\<rparr>
      in if bound_video s then Done (onseeked s1) else Done s1)"
| "step pf IntervalTick s = (if syncInterval s then Done (syncTick s) else Done s)"

text \<open>A rejected handler does not stop the page: the next event meets the state it left.\<close>

fun run :: "platform \<Rightarrow> event list \<Rightarrow> participant \<Rightarrow> participant" where
  "run pf [] s = s"
| "run pf (ev # evs) s = run pf evs (state_of (step pf ev s))"

text \<open>The signals a step hands to the channel.\<close>

definition emitted :: "platform \<Rightarrow> event \<Rightarrow> participant \<Rightarrow> signal list" where
  "emitted pf ev s = drop (length (outbox s)) (outbox (state_of (step pf ev s)))"

section \<open>Concrete participants\<close>

definition browser :: platform where
  "browser =
     \<lparr>createOffer = (\<lambda>p. Some ''offer-sdp''),
      createAnswer = (\<lambda>p. Some ''answer-sdp''),
      setLocalDescription = (\<lambda>p d. True),
      setRemoteDescription = (\<lambda>p d. True),
      addIceCandidate = (\<lambda>p c. pc_remote_desc p \<noteq> None),
      stop_throws = (\<lambda>t. False),
      close_throws = (\<lambda>p. False),
      play_ok = (\<lambda>v. True)\<rparr>"

definition element :: video where
  "element =
     \<lparr>currentTime = 0, paused = True, v_src = [], v_srcObject = None, v_muted = True,
      v_controls = False, v_bound = False\<rparr>"

definition fresh :: "peer_id \<Rightarrow> bool \<Rightarrow> participant" where
  "fresh pid host =
     \<lparr>peerId = pid, isHost = host, peerConnections = [], channelRef = None,
      localStreamRef = None, isSharing = False, hasStream = False, videoFileUrl = None,
      streamMode = Screen, isUploading = False, videoRef = Some element,
      localVideoRef = Some element, syncInterval = False, onended = {}, pcs = [],
      ended = {}, outbox = []\<rparr>"

definition screen_stream :: stream where
  "screen_stream =
     [\<lparr>track_id = 0, track_kind = VideoTrack\<rparr>, \<lparr>track_id = 1, track_kind = AudioTrack\<rparr>]"

definition from_peer :: "peer_id \<Rightarrow> signal_type \<Rightarrow> signal" where
  "from_peer p ty = \<lparr>sig_type = ty, sig_from = p, sig_to = None\<rparr>"

definition to_peer :: "peer_id \<Rightarrow> peer_id \<Rightarrow> signal_type \<Rightarrow> signal" where
  "to_peer p q ty = \<lparr>sig_type = ty, sig_from = p, sig_to = Some q\<rparr>"


text \<open>A viewer whose element plays (or is paused, \<open>p\<close>) at time \<open>t\<close>.\<close>

definition watching :: "time \<Rightarrow> bool \<Rightarrow> participant" where
  "watching t p =
     (fresh ''v'' False)\<lparr>videoRef := Some (element\<lparr>currentTime := t, paused := p\<rparr>)\<rparr>"

text \<open>A viewer that has subscribed.\<close>

definition subscribed_viewer :: participant where
  "subscribed_viewer = run browser [EffectSetup 0, SubscribeStatus True] (fresh ''v'' False)"

text \<open>A host sharing its screen, with viewer \<open>v\<close> offered a session.\<close>

definition screen_events :: "event list" where
  "screen_events =
     [EffectSetup 0, ClickStartShare (Some screen_stream), Inbound (from_peer ''v'' ViewerReady)]"

definition screen_host :: participant where
  "screen_host = run browser screen_events (fresh ''h'' True)"

text \<open>The same host after \<open>v\<close> has answered.\<close>

definition answered_host :: participant where
  "answered_host =
     run browser (screen_events @ [Inbound (to_peer ''v'' ''h'' (Answer ''answer-sdp''))])
       (fresh ''h'' True)"

text \<open>A host playing an uploaded file, 42 seconds in.\<close>

definition file_host :: participant where
  "file_host =
     run browser
       [EffectSetup 0, ClickMode File,
        ChooseFile (Some ''movie.mp4'') (Uploaded ''https://cdn/movie.mp4''),
        VideoPlay, VideoSeeked 42]
       (fresh ''h'' True)"

section \<open>Notions used in the statements\<close>

definition is_control :: "signal \<Rightarrow> bool" where
  "is_control x = (case sig_type x of Control a \<Rightarrow> True | _ \<Rightarrow> False)"


definition viewer_ready :: "participant \<Rightarrow> signal" where
  "viewer_ready s = \<lparr>sig_type = ViewerReady, sig_from = peerId s, sig_to = None\<rparr>"

text \<open>
  The burst a late joiner is to get: \<open>file-url\<close>, \<open>seek\<close> to the host's current time, and
  \<open>play\<close> if the host's element is not paused, each addressed to that viewer.
\<close>

definition late_join_burst :: "participant \<Rightarrow> peer_id \<Rightarrow> string \<Rightarrow> video \<Rightarrow> signal list" where
  "late_join_burst s viewer url v =
     \<lparr>sig_type = Control (FileUrl url), sig_from = peerId s, sig_to = Some viewer\<rparr> #
     \<lparr>sig_type = Control (Seek (currentTime v)), sig_from = peerId s, sig_to = Some viewer\<rparr> #
     (if paused v then []
      else [\<lparr>sig_type = Control Play, sig_from = peerId s, sig_to = Some viewer\<rparr>])"

text \<open>The registry is a well-formed Map: keys are unique, values are constructed connections.\<close>

definition registry_ok :: "participant \<Rightarrow> bool" where
  "registry_ok s \<longleftrightarrow>
     distinct (map fst (peerConnections s)) \<and>
     (\<forall>pc \<in> set (map snd (peerConnections s)). pc < length (pcs s))"

text \<open>The registry entries for a peer, and the connections ever constructed for a peer.\<close>

definition sessions_of :: "peer_id \<Rightarrow> participant \<Rightarrow> (peer_id \<times> nat) list" where
  "sessions_of P s = filter (\<lambda>e. fst e = P) (peerConnections s)"

definition allocated_for :: "peer_id \<Rightarrow> participant \<Rightarrow> rtc_pc list" where
  "allocated_for P s = filter (\<lambda>p. pc_remote p = P) (pcs s)"

text \<open>
  A session-creating signal: an accepted \<open>viewer-ready\<close> at a host that holds a capture
  stream, or an accepted \<open>offer\<close> at a viewer.
\<close>

definition creates_session :: "participant \<Rightarrow> signal \<Rightarrow> bool" where
  "creates_session s m \<longleftrightarrow>
     accepted s m \<and>
     (case sig_type m of
        ViewerReady \<Rightarrow> isHost s \<and> localStreamRef s \<noteq> None
      | Offer d \<Rightarrow> \<not> isHost s
      | _ \<Rightarrow> False)"

text \<open>
  \<open>grows T s s'\<close>: from \<open>s\<close> to \<open>s'\<close> the participant keeps its identity and role, and the
  outbox gains only signals whose type satisfies \<open>T\<close>.
\<close>

definition grows :: "(signal_type \<Rightarrow> bool) \<Rightarrow> participant \<Rightarrow> participant \<Rightarrow> bool" where
  "grows T s s' \<longleftrightarrow>
     peerId s' = peerId s \<and> isHost s' = isHost s \<and>
     (\<exists>xs. outbox s' = outbox s @ xs \<and> (\<forall>x \<in> set xs. T (sig_type x)))"

section \<open>Double rounding and the drift test\<close>

lemma round_even_lower: "\<lfloor>y\<rfloor> \<le> round_even y"
  by (simp add: round_even_def Let_def)

lemma round_even_upper: "round_even y \<le> \<lfloor>y\<rfloor> + 1"
  by (simp add: round_even_def Let_def)

lemma round_even_ge_even:
  assumes "even N"
  shows "N \<le> round_even y \<longleftrightarrow> of_int N - 1/2 \<le> y"
proof -
  define f where "f = \<lfloor>y\<rfloor>"
  define r where "r = y - of_int f"
  have fr: "y = of_int f + r" "0 \<le> r" "r < 1"
    by (simp_all add: r_def f_def) linarith+
  have re: "round_even y = (if r < 1/2 then f else if 1/2 < r then f + 1
                            else if even f then f else f + 1)"
    by (simp add: round_even_def Let_def f_def r_def)
  show ?thesis
  proof (cases "N \<le> f")
    case True
    then have "(of_int N :: rat) \<le> of_int f" by simp
    with fr True show ?thesis unfolding re by auto
  next
    case False
    show ?thesis
    proof (cases "N = f + 1")
      case True
      with assms have odd: "odd f" by simp
      have "(of_int N :: rat) = of_int f + 1" using True by simp
      with fr odd True show ?thesis unfolding re by auto
    next
      case F2: False
      with False have "f + 2 \<le> N" by simp
      then have "(of_int f :: rat) + 2 \<le> of_int N"
        by (metis of_int_add of_int_le_iff of_int_numeral)
      with fr False F2 show ?thesis unfolding re by auto
    qed
  qed
qed

lemma round_even_minus: "round_even (- y) = - round_even y"
proof (cases "y = of_int \<lfloor>y\<rfloor>")
  case True
  then obtain k where k: "y = of_int k" by metis
  show ?thesis unfolding k by (simp add: round_even_def Let_def flip: of_int_minus)
next
  case False
  define f where "f = \<lfloor>y\<rfloor>"
  define r where "r = y - of_int f"
  have fr: "y = of_int f + r" "0 < r" "r < 1"
    using False by (simp_all add: r_def f_def) linarith+
  have nf: "\<lfloor>- y\<rfloor> = - f - 1"
    using fr by (simp add: floor_unique)
  have re: "round_even y = (if r < 1/2 then f else if 1/2 < r then f + 1
                            else if even f then f else f + 1)"
    by (simp add: round_even_def Let_def f_def r_def)
  have nr: "- y - of_int (- f - 1) = 1 - r" using fr by simp
  have re': "round_even (- y) = (if 1 - r < 1/2 then - f - 1 else if 1/2 < 1 - r then - f
                            else if even (- f - 1) then - f - 1 else - f)"
    unfolding round_even_def Let_def nf nr by simp
  show ?thesis unfolding re re' by auto
qed

lemma pow2_pos [simp]: "0 < (2::rat) powi k"
  by (simp add: zero_less_power_int)

lemma pow2_Suc: "(2::rat) powi (k + 1) = 2 * 2 powi k"
  by (simp add: power_int_add)

lemma pow2_pred: "(2::rat) powi (k - 1) = 2 powi k / 2"
  by (simp add: power_int_diff)

lemma bitlen_powi:
  assumes "0 < p"
  shows "(2::rat) powi (bitlen p - 1) \<le> of_int p" "of_int p < (2::rat) powi bitlen p"
proof -
  from assms have b: "1 \<le> bitlen p" by (auto simp: bitlen_alt_def)
  from bitlen_bounds [OF assms] have
    "(2::int) ^ nat (bitlen p - 1) \<le> p" "p < 2 ^ nat (bitlen p)" by simp_all
  then have "(of_int (2 ^ nat (bitlen p - 1)) :: rat) \<le> of_int p"
    "(of_int p :: rat) < of_int (2 ^ nat (bitlen p))"
    by (simp_all only: of_int_le_iff of_int_less_iff)
  with b show "(2::rat) powi (bitlen p - 1) \<le> of_int p" "of_int p < (2::rat) powi bitlen p"
    by (simp_all add: power_int_def)
qed

lemma ilog2_bounds:
  assumes "0 < x"
  shows "2 powi ilog2 x \<le> x \<and> x < 2 powi (ilog2 x + 1)"
proof -
  obtain p d where pd: "quotient_of x = (p, d)" by (cases "quotient_of x")
  then have d: "0 < d" and x: "x = of_int p / of_int d"
    by (simp_all add: quotient_of_denom_pos quotient_of_div)
  with assms have p: "0 < p" by (simp add: zero_less_divide_iff)
  define k where "k = bitlen p - bitlen d"
  have D: "(0::rat) < of_int d" using d by simp
  note bp = bitlen_powi [OF p] and bd = bitlen_powi [OF d]
  have "k + 1 = bitlen p - (bitlen d - 1)" by (simp add: k_def)
  then have k1: "(2::rat) powi (k + 1) = 2 powi bitlen p / 2 powi (bitlen d - 1)"
    by (simp only:) (rule power_int_diff, simp)
  have "k - 1 = (bitlen p - 1) - bitlen d" by (simp add: k_def)
  then have k2: "(2::rat) powi (k - 1) = 2 powi (bitlen p - 1) / 2 powi bitlen d"
    by (simp only:) (rule power_int_diff, simp)
  have up: "x < 2 powi (k + 1)"
  proof -
    have "x < 2 powi bitlen p / of_int d" unfolding x using bp(2) D
      by (simp add: divide_strict_right_mono)
    also have "\<dots> \<le> 2 powi bitlen p / 2 powi (bitlen d - 1)"
      using bd(1) by (simp add: frac_le)
    finally show ?thesis by (simp only: k1)
  qed
  have lo: "2 powi (k - 1) \<le> x"
  proof -
    have "(2::rat) powi (bitlen p - 1) / 2 powi bitlen d \<le> of_int p / 2 powi bitlen d"
      using bp(1) by (simp add: divide_right_mono)
    also have "\<dots> \<le> of_int p / of_int d"
      using bd(2) p D by (simp add: frac_le)
    finally show ?thesis by (simp only: k2 x)
  qed
  show ?thesis
  proof (cases "of_int d * (2::rat) powi k \<le> of_int p")
    case True
    then have e: "ilog2 x = k" by (simp add: ilog2_def pd k_def)
    from True D have "2 powi k \<le> x" unfolding x by (simp add: pos_le_divide_eq mult.commute)
    with up show ?thesis by (simp add: e)
  next
    case False
    then have e: "ilog2 x = k - 1" by (simp add: ilog2_def pd k_def)
    from False D have "x < 2 powi k" unfolding x by (simp add: pos_divide_less_eq mult.commute)
    with lo show ?thesis by (simp add: e)
  qed
qed

lemma fl_minus: "fl (- x) = - fl x"
  by (simp add: fl_def Let_def round_even_minus)

lemma fl_nonneg: "0 \<le> x \<Longrightarrow> 0 \<le> fl x"
proof -
  assume x: "0 \<le> x"
  have "0 \<le> round_even (x / 2 powi q)" for q
  proof -
    have "0 \<le> x / 2 powi q" using x by simp
    then have "0 \<le> \<lfloor>x / 2 powi q\<rfloor>" by simp
    with round_even_lower [of "x / 2 powi q"] show ?thesis by linarith
  qed
  then show ?thesis by (simp add: fl_def Let_def)
qed

lemma abs_fl: "\<bar>fl d\<bar> = fl \<bar>d\<bar>"
proof (cases "0 \<le> d")
  case True
  then show ?thesis by (simp add: fl_nonneg)
next
  case False
  then have "0 \<le> fl (- d)" by (simp add: fl_nonneg)
  with False show ?thesis by (simp add: fl_minus abs_if)
qed

lemma fl_binade_low:
  assumes "0 < x" and "- 1 \<le> ilog2 x"
  shows "1/2 \<le> fl x"
proof -
  define e where "e = ilog2 x"
  define q where "q = e - 52"
  from ilog2_bounds [OF assms(1)] have lo: "2 powi e \<le> x" by (simp add: e_def)
  have mq: "max (ilog2 \<bar>x\<bar> - 52) (- 1074) = q"
    using assms by (simp add: q_def e_def)
  have "(2::rat) powi 52 = 2 powi e / 2 powi q"
    by (simp add: q_def power_int_diff)
  also have "\<dots> \<le> x / 2 powi q"
    by (rule divide_right_mono) (simp_all only: lo pow2_pos less_imp_le)
  finally have "(of_int (2 ^ 52) :: rat) \<le> x / 2 powi q" by simp
  then have "2 ^ 52 \<le> \<lfloor>x / 2 powi q\<rfloor>" by (simp only: le_floor_iff)
  with round_even_lower [of "x / 2 powi q"] have "2 ^ 52 \<le> round_even (x / 2 powi q)"
    by linarith
  then have "(of_int (2 ^ 52) :: rat) \<le> of_int (round_even (x / 2 powi q))"
    by (simp only: of_int_le_iff)
  then have "(2::rat) powi 52 * 2 powi q \<le> of_int (round_even (x / 2 powi q)) * 2 powi q"
    by (simp add: mult_right_mono)
  moreover have "(2::rat) powi 52 * 2 powi q = 2 powi e"
    by (simp add: q_def power_int_diff)
  moreover have "(1/2 :: rat) \<le> 2 powi e"
    using power_int_increasing [of "-1" e "2::rat"] assms(2) by (simp add: e_def)
  ultimately have "(1/2 :: rat) \<le> of_int (round_even (x / 2 powi q)) * 2 powi q" by linarith
  with assms(1) mq show ?thesis by (simp add: fl_def Let_def)
qed

lemma fl_binade_high:
  assumes "0 < x" and "ilog2 x \<le> - 3"
  shows "fl x \<le> 1/4"
proof -
  define e where "e = ilog2 x"
  define q where "q = max (e - 52) (- 1074)"
  have q55: "q \<le> - 55" using assms(2) by (simp add: q_def e_def)
  from ilog2_bounds [OF assms(1)] have "x < 2 powi (e + 1)" by (simp add: e_def)
  also have "\<dots> \<le> 2 powi (- 2)"
    using power_int_increasing [of "e + 1" "- 2" "2::rat"] assms(2) by (simp add: e_def)
  finally have x4: "x < 2 powi (- 2)" .
  define N :: int where "N = 2 ^ nat (- 2 - q)"
  have N: "(of_int N :: rat) = 2 powi (- 2) / 2 powi q"
  proof -
    have "(2::rat) powi (- 2 - q) = 2 powi (- 2) / 2 powi q"
      by (rule power_int_diff) simp
    moreover have "(2::rat) powi (- 2 - q) = 2 ^ nat (- 2 - q)"
      using q55 by (simp add: power_int_nonneg_exp)
    ultimately show ?thesis by (simp add: N_def)
  qed
  have "x / 2 powi q < of_int N" unfolding N
    by (rule divide_strict_right_mono) (simp_all only: x4 pow2_pos)
  then have "\<lfloor>x / 2 powi q\<rfloor> < N" by (simp only: floor_less_iff)
  with round_even_upper [of "x / 2 powi q"] have "round_even (x / 2 powi q) \<le> N" by linarith
  then have "(of_int (round_even (x / 2 powi q)) :: rat) \<le> of_int N"
    by (simp only: of_int_le_iff)
  then have "of_int (round_even (x / 2 powi q)) * 2 powi q \<le> of_int N * (2::rat) powi q"
    by (simp add: mult_right_mono)
  also have "\<dots> = 2 powi (- 2)" unfolding N by simp
  finally have "of_int (round_even (x / 2 powi q)) * 2 powi q \<le> (1/4 :: rat)" by simp
  with assms(1) show ?thesis by (simp add: fl_def Let_def q_def e_def)
qed

lemma fl_three_tenths: "fl (3/10) = 5404319552844595 / 2 ^ 54"
  by code_simp

lemma fl_binade_mid:
  assumes "0 < x" and "ilog2 x = - 2"
  shows "5404319552844595 / 2 ^ 54 < fl x \<longleftrightarrow> 10808639105689191 / 2 ^ 55 \<le> x"
proof -
  have flx: "fl x = of_int (round_even (x * 2 ^ 54)) / 2 ^ 54"
    using assms by (simp add: fl_def Let_def power_int_minus_divide)
  have "(5404319552844595 / 2 ^ 54 :: rat) < fl x \<longleftrightarrow>
          (of_int 5404319552844595 :: rat) < of_int (round_even (x * 2 ^ 54))"
    unfolding flx by (simp add: divide_less_cancel)
  also have "\<dots> \<longleftrightarrow> 5404319552844596 \<le> round_even (x * 2 ^ 54)"
    by (simp only: of_int_less_iff) linarith
  also have "\<dots> \<longleftrightarrow> of_int 5404319552844596 - 1/2 \<le> x * 2 ^ 54"
    by (rule round_even_ge_even) simp
  also have "\<dots> \<longleftrightarrow> 10808639105689191 / 2 ^ 55 \<le> x"
    by (simp add: field_simps)
  finally show ?thesis .
qed

text \<open>The test \<open>Math.abs(a - b) > 0.3\<close> as a condition on the exact difference.\<close>

lemma fl_gt_three_tenths:
  assumes "0 \<le> x"
  shows "fl (3/10) < fl x \<longleftrightarrow> 10808639105689191 / 2 ^ 55 \<le> x"
proof (cases "x = 0")
  case True
  then show ?thesis by (simp add: fl_three_tenths) (simp add: fl_def)
next
  case False
  with assms have x: "0 < x" by simp
  consider "ilog2 x \<le> - 3" | "ilog2 x = - 2" | "- 1 \<le> ilog2 x" by linarith
  then show ?thesis
  proof cases
    case 1
    from ilog2_bounds [OF x] have "x < 2 powi (ilog2 x + 1)" by simp
    also have "\<dots> \<le> 2 powi (- 2)"
      using power_int_increasing [of "ilog2 x + 1" "- 2" "2::rat"] 1 by simp
    finally have "x < 1/4" by simp
    with fl_binade_high [OF x 1] show ?thesis by (simp add: fl_three_tenths)
  next
    case 2
    with fl_binade_mid [OF x 2] show ?thesis by (simp only: fl_three_tenths)
  next
    case 3
    from ilog2_bounds [OF x] have "2 powi ilog2 x \<le> x" by simp
    moreover have "(1/2 :: rat) \<le> 2 powi ilog2 x"
      using power_int_increasing [of "-1" "ilog2 x" "2::rat"] 3 by simp
    ultimately have "1/2 \<le> x" by linarith
    with fl_binade_low [OF x 3] show ?thesis by (simp add: fl_three_tenths)
  qed
qed

lemma drift_test:
  "js_gt (js_abs (js_sub a b)) (fl (3/10)) \<longleftrightarrow> 10808639105689191 / 2 ^ 55 \<le> \<bar>a - b\<bar>"
proof -
  have c: "fl (3/10) < 2 powi 1024" by (simp add: fl_three_tenths)
  have "js_gt (js_abs (js_sub a b)) (fl (3/10)) \<longleftrightarrow> fl (3/10) < \<bar>fl (a - b)\<bar>"
    using c by (auto simp add: js_sub_def to_number_def)
  also have "\<dots> \<longleftrightarrow> fl (3/10) < fl \<bar>a - b\<bar>" by (simp only: abs_fl)
  also have "\<dots> \<longleftrightarrow> 10808639105689191 / 2 ^ 55 \<le> \<bar>a - b\<bar>"
    by (rule fl_gt_three_tenths) simp
  finally show ?thesis .
qed

section \<open>Frame lemmas\<close>

text \<open>What the primitives leave alone.\<close>

lemma sendSignal_fields [simp]:
  "peerId (sendSignal m s) = peerId s" "isHost (sendSignal m s) = isHost s"
  "peerConnections (sendSignal m s) = peerConnections s" "pcs (sendSignal m s) = pcs s"
  "channelRef (sendSignal m s) = channelRef s" "localStreamRef (sendSignal m s) = localStreamRef s"
  "localVideoRef (sendSignal m s) = localVideoRef s" "ended (sendSignal m s) = ended s"
  by (simp_all add: sendSignal_def split: option.splits)

lemma sendSignal_outbox:
  "outbox (sendSignal m s) = outbox s @ (if channelRef s = None then [] else [m])"
  by (simp add: sendSignal_def split: option.splits)

lemma upd_pc_fields [simp]:
  "peerId (upd_pc pc f s) = peerId s" "isHost (upd_pc pc f s) = isHost s"
  "peerConnections (upd_pc pc f s) = peerConnections s"
  "length (pcs (upd_pc pc f s)) = length (pcs s)"
  "channelRef (upd_pc pc f s) = channelRef s" "localStreamRef (upd_pc pc f s) = localStreamRef s"
  "localVideoRef (upd_pc pc f s) = localVideoRef s" "ended (upd_pc pc f s) = ended s"
  "outbox (upd_pc pc f s) = outbox s"
  by (simp_all add: upd_pc_def)

lemma addTrack_fields [simp]:
  "peerId (addTrack pc t s) = peerId s" "isHost (addTrack pc t s) = isHost s"
  "peerConnections (addTrack pc t s) = peerConnections s"
  "length (pcs (addTrack pc t s)) = length (pcs s)"
  "channelRef (addTrack pc t s) = channelRef s" "localStreamRef (addTrack pc t s) = localStreamRef s"
  "localVideoRef (addTrack pc t s) = localVideoRef s" "ended (addTrack pc t s) = ended s"
  "outbox (addTrack pc t s) = outbox s"
  by (simp_all add: addTrack_def)

lemma fold_addTrack_fields [simp]:
  "peerId (fold (addTrack pc) ts s) = peerId s" "isHost (fold (addTrack pc) ts s) = isHost s"
  "peerConnections (fold (addTrack pc) ts s) = peerConnections s"
  "length (pcs (fold (addTrack pc) ts s)) = length (pcs s)"
  "channelRef (fold (addTrack pc) ts s) = channelRef s"
  "localStreamRef (fold (addTrack pc) ts s) = localStreamRef s"
  "localVideoRef (fold (addTrack pc) ts s) = localVideoRef s"
  "ended (fold (addTrack pc) ts s) = ended s"
  "outbox (fold (addTrack pc) ts s) = outbox s"
  by (induction ts arbitrary: s; simp)+

lemma upd_pc_closed:
  "(\<And>p. pc_closed (f p) = pc_closed p) \<Longrightarrow> map pc_closed (pcs (upd_pc pc f s)) = map pc_closed (pcs s)"
  by (simp add: upd_pc_def map_update list_update_same_conv)

lemma sendSignal_eq:
  "sendSignal m s = s\<lparr>outbox := outbox s @ (if channelRef s = None then [] else [m])\<rparr>"
  by (simp add: sendSignal_def split: option.splits)

lemma onViewerReady_eq:
  "onViewerReady v s =
     s\<lparr>outbox := outbox s @
        (if streamMode s = File \<and> isSharing s \<and> truthy (videoFileUrl s) \<and> channelRef s \<noteq> None
         then \<lparr>sig_type = Control (FileUrl (case videoFileUrl s of None \<Rightarrow> [] | Some u \<Rightarrow> u)),
               sig_from = peerId s, sig_to = Some v\<rparr> #
              \<lparr>sig_type = Control (Seek (case localVideoRef s of None \<Rightarrow> 0 | Some e \<Rightarrow> currentTime e)),
               sig_from = peerId s, sig_to = Some v\<rparr> #
              (case localVideoRef s of
                 None \<Rightarrow> []
               | Some e \<Rightarrow> if paused e then []
                           else [\<lparr>sig_type = Control Play, sig_from = peerId s, sig_to = Some v\<rparr>])
         else [])\<rparr>"
  by (simp add: onViewerReady_def sendControlSignal_def sendSignal_eq Let_def split: option.splits)

lemma sendOfferToViewer_outbox:
  "outbox (state_of (sendOfferToViewer pf v s)) = outbox s \<or>
   (\<exists>d. localStreamRef s \<noteq> None \<and> outbox (state_of (sendOfferToViewer pf v s)) =
      outbox s @ [\<lparr>sig_type = Offer d, sig_from = peerId s, sig_to = Some v\<rparr>])"
  by (auto simp add: sendOfferToViewer_def createPeerConnection_def Let_def sendSignal_outbox
      split: option.splits)

section \<open>Releasing on a platform that does not throw\<close>







section \<open>The registry stays a well-formed Map\<close>

lemma registry_ok_sendSignal [simp]: "registry_ok (sendSignal m s) = registry_ok s"
  by (simp add: registry_ok_def)

lemma registry_ok_sendControlSignal [simp]: "registry_ok (sendControlSignal a to s) = registry_ok s"
  by (simp add: sendControlSignal_def)

lemma registry_ok_upd_pc [simp]: "registry_ok (upd_pc pc f s) = registry_ok s"
  by (simp add: registry_ok_def)

lemma registry_ok_fold_addTrack [simp]: "registry_ok (fold (addTrack pc) ts s) = registry_ok s"
  by (simp add: registry_ok_def)

lemma snd_update_subset: "set (map snd (AList.update k v al)) \<subseteq> insert v (set (map snd al))"
  by (induction al) auto

lemma registry_ok_createPeerConnection:
  "registry_ok s \<Longrightarrow> registry_ok (snd (createPeerConnection k s))"
proof -
  assume ok: "registry_ok s"
  have "\<forall>pc \<in> set (map snd (AList.update k (length (pcs s)) (peerConnections s))).
          pc < Suc (length (pcs s))"
  proof
    fix pc assume "pc \<in> set (map snd (AList.update k (length (pcs s)) (peerConnections s)))"
    with snd_update_subset [of k "length (pcs s)" "peerConnections s"]
    have "pc = length (pcs s) \<or> pc \<in> set (map snd (peerConnections s))" by blast
    with ok show "pc < Suc (length (pcs s))" by (auto simp add: registry_ok_def less_Suc_eq)
  qed
  with ok show ?thesis
    by (simp add: registry_ok_def createPeerConnection_def Let_def distinct_update)
qed

lemma stop_tracks_registry [simp]:
  "peerConnections (state_of (stop_tracks pf ts s)) = peerConnections s"
  "pcs (state_of (stop_tracks pf ts s)) = pcs s"
  by (induction ts arbitrary: s; simp)+

lemma close_all_registry [simp]:
  "peerConnections (state_of (close_all pf hs s)) = peerConnections s"
  "length (pcs (state_of (close_all pf hs s))) = length (pcs s)"
  by (induction hs arbitrary: s; simp)+

lemma registry_ok_stop_tracks [simp]: "registry_ok (state_of (stop_tracks pf ts s)) = registry_ok s"
  by (simp add: registry_ok_def)

lemma registry_ok_close_all [simp]: "registry_ok (state_of (close_all pf hs s)) = registry_ok s"
  by (simp add: registry_ok_def)

lemma registry_ok_and_then:
  "registry_ok (state_of r) \<Longrightarrow> (\<And>s1. registry_ok s1 \<Longrightarrow> registry_ok (state_of (f s1))) \<Longrightarrow>
   registry_ok (state_of (and_then r f))"
  by (cases r) simp_all

lemma registry_ok_clear: "registry_ok (s\<lparr>peerConnections := []\<rparr>)"
  by (simp add: registry_ok_def)

lemma registry_ok_stopSharing: "registry_ok s \<Longrightarrow> registry_ok (state_of (stopSharing pf s))"
  unfolding stopSharing_def
  by (intro registry_ok_and_then) (auto simp add: registry_ok_def split: option.splits)

lemma registry_ok_effectCleanup: "registry_ok s \<Longrightarrow> registry_ok (state_of (effectCleanup pf s))"
  unfolding effectCleanup_def
  by (intro registry_ok_and_then) (auto simp add: registry_ok_def split: option.splits)

lemma registry_ok_handleStopShare: "registry_ok s \<Longrightarrow> registry_ok (state_of (handleStopShare pf s))"
  unfolding handleStopShare_def
  by (intro registry_ok_and_then registry_ok_stopSharing) (auto simp add: registry_ok_def)

lemma registry_ok_handleStartShare: "registry_ok s \<Longrightarrow> registry_ok (handleStartShare pf d s)"
  by (auto simp add: handleStartShare_def startSharing_def registry_ok_def Let_def split: option.splits)

lemma registry_ok_handleFileUpload:
  "registry_ok s \<Longrightarrow> registry_ok (state_of (handleFileUpload pf file up s))"
proof (cases "file")
  case None
  then show "registry_ok s \<Longrightarrow> ?thesis" by (simp add: handleFileUpload_def)
next
  case (Some name)
  show "registry_ok s \<Longrightarrow> ?thesis"
    unfolding handleFileUpload_def Some option.case
    apply (rule registry_ok_and_then)
     apply (simp add: registry_ok_handleStopShare)
    apply (auto simp add: registry_ok_def Let_def sendControlSignal_def
        split: upload_result.splits option.splits)
    done
qed

lemma registry_ok_sendOfferToViewer:
  "registry_ok s \<Longrightarrow> registry_ok (state_of (sendOfferToViewer pf v s))"
  using registry_ok_createPeerConnection [of s v]
  by (auto simp add: sendOfferToViewer_def Let_def split: option.splits prod.splits)

lemma registry_ok_onViewerReady [simp]: "registry_ok (onViewerReady v s) = registry_ok s"
  by (simp add: onViewerReady_eq registry_ok_def)

lemma registry_ok_handleControlReceived [simp]:
  "registry_ok (handleControlReceived pf a s) = registry_ok s"
  by (auto simp add: handleControlReceived_def registry_ok_def Let_def split: option.splits control.splits)

lemma registry_ok_onHostStopped [simp]: "registry_ok (onHostStopped s) = registry_ok s"
  by (simp add: onHostStopped_def registry_ok_def)

lemma registry_ok_handleSignal:
  "registry_ok s \<Longrightarrow> registry_ok (state_of (handleSignal pf m s))"
  using registry_ok_createPeerConnection [of s "sig_from m"]
  unfolding handleSignal_def
  by (auto simp add: Let_def registry_ok_sendOfferToViewer
      intro!: registry_ok_and_then registry_ok_clear
      split: signal_type.splits option.splits prod.splits)

lemma registry_ok_step: "registry_ok s \<Longrightarrow> registry_ok (state_of (step pf ev s))"
proof (cases ev)
  case (Inbound m) then show "registry_ok s \<Longrightarrow> ?thesis" by (simp add: registry_ok_handleSignal)
next
  case EffectCleanup then show "registry_ok s \<Longrightarrow> ?thesis" by (simp add: registry_ok_effectCleanup)
next
  case ClickStopShare then show "registry_ok s \<Longrightarrow> ?thesis" by (simp add: registry_ok_handleStopShare)
next
  case (ChooseFile f u) then show "registry_ok s \<Longrightarrow> ?thesis" by (simp add: registry_ok_handleFileUpload)
next
  case (TrackEnded t) then show "registry_ok s \<Longrightarrow> ?thesis" by (simp add: registry_ok_handleStopShare)
next
  case (ClickStartShare d) then show "registry_ok s \<Longrightarrow> ?thesis" by (simp add: registry_ok_handleStartShare)
qed (auto simp add: registry_ok_def onSubscribeStatus_def onicecandidate_def ontrack_def
      onStreamReceived_def onplay_def onpause_def onseeked_def syncTick_def sendControlSignal_def
      Let_def split: option.splits)

lemma registry_ok_run: "registry_ok s \<Longrightarrow> registry_ok (run pf evs s)"
  by (induction evs arbitrary: s) (simp_all add: registry_ok_step)

lemma registry_ok_fresh: "registry_ok (fresh pid host)"
  by (simp add: registry_ok_def fresh_def)

section \<open>What a step can emit\<close>

lemma stop_tracks_identity [simp]:
  "peerId (state_of (stop_tracks pf ts s)) = peerId s"
  "isHost (state_of (stop_tracks pf ts s)) = isHost s"
  by (induction ts arbitrary: s; simp)+

lemma close_all_identity [simp]:
  "peerId (state_of (close_all pf hs s)) = peerId s"
  "isHost (state_of (close_all pf hs s)) = isHost s"
  by (induction hs arbitrary: s; simp)+

lemma grows_same:
  "peerId s' = peerId s \<Longrightarrow> isHost s' = isHost s \<Longrightarrow> outbox s' = outbox s \<Longrightarrow> grows T s s'"
  by (simp add: grows_def)

lemma grows_trans: "grows T s s1 \<Longrightarrow> grows T s1 s2 \<Longrightarrow> grows T s s2"
  by (auto simp add: grows_def)

lemma grows_sendSignal: "T (sig_type m) \<Longrightarrow> grows T s (sendSignal m s)"
  by (simp add: grows_def sendSignal_outbox)

lemma grows_sendControlSignal:
  "peerId s1 = peerId s \<Longrightarrow> isHost s1 = isHost s \<Longrightarrow> outbox s1 = outbox s \<Longrightarrow>
   T (Control a) \<Longrightarrow> grows T s (sendControlSignal a to s1)"
  by (simp add: sendControlSignal_def grows_def sendSignal_outbox)

lemma grows_and_then:
  "grows T s (state_of r) \<Longrightarrow> (\<And>s1. grows T s1 (state_of (f s1))) \<Longrightarrow>
   grows T s (state_of (and_then r f))"
  by (cases r) (auto intro: grows_trans)

lemma grows_emitted:
  "grows T s (state_of (step pf ev s)) \<Longrightarrow> x \<in> set (emitted pf ev s) \<Longrightarrow> T (sig_type x)"
  by (auto simp add: grows_def emitted_def)

lemma stop_tracks_outbox [simp]: "outbox (state_of (stop_tracks pf ts s)) = outbox s"
  by (induction ts arbitrary: s) simp_all

lemma close_all_outbox [simp]: "outbox (state_of (close_all pf hs s)) = outbox s"
  by (induction hs arbitrary: s) simp_all

lemma grows_release:
  "grows T s (state_of (case localStreamRef s of None \<Rightarrow> Done s | Some ts \<Rightarrow> stop_tracks pf ts s))"
  by (simp add: grows_same split: option.splits)

lemma grows_stopSharing: "T HostStopped \<Longrightarrow> grows T s (state_of (stopSharing pf s))"
  unfolding stopSharing_def
  apply (rule grows_and_then)
   apply (rule grows_release)
  apply (rule grows_and_then)
   apply (simp add: grows_same)
  apply (simp add: grows_def sendSignal_outbox)
  done

lemma grows_effectCleanup: "grows T s (state_of (effectCleanup pf s))"
  unfolding effectCleanup_def
  apply (rule grows_and_then)
   apply (rule grows_release)
  apply (rule grows_and_then)
   apply (simp_all add: grows_same)
  done

lemma grows_handleStopShare: "T HostStopped \<Longrightarrow> grows T s (state_of (handleStopShare pf s))"
  unfolding handleStopShare_def
  apply (rule grows_and_then)
   apply (erule grows_stopSharing)
  apply (simp add: grows_same)
  done

lemma grows_handleStartShare: "T HostStarted \<Longrightarrow> grows T s (handleStartShare pf d s)"
  by (auto simp add: handleStartShare_def startSharing_def grows_def sendSignal_outbox Let_def
      split: option.splits)

lemma grows_handleFileUpload:
  assumes "T HostStopped" and "\<And>u. T (Control (FileUrl u))"
  shows "grows T s (state_of (handleFileUpload pf file up s))"
proof (cases "file")
  case None
  then show ?thesis by (simp add: handleFileUpload_def grows_same)
next
  case (Some name)
  show ?thesis
    unfolding handleFileUpload_def Some option.case
    apply (rule grows_and_then)
     apply (simp add: grows_handleStopShare assms(1) grows_same)
    apply (auto simp add: grows_def Let_def sendControlSignal_def sendSignal_outbox assms(2)
        split: upload_result.splits option.splits)
    done
qed

lemma grows_step_other:
  assumes "\<And>p. ev \<noteq> Inbound p"
    and "T HostStopped" and "T HostStarted" and "\<And>a. T (Control a)" and "\<And>c. T (IceCandidate c)"
    and "ev = SubscribeStatus True \<and> \<not> isHost s \<Longrightarrow> T ViewerReady"
  shows "grows T s (state_of (step pf ev s))"
proof (cases ev)
  case (Inbound p) with assms(1) [of p] show ?thesis by blast
next
  case EffectCleanup then show ?thesis by (simp add: grows_effectCleanup)
next
  case ClickStopShare then show ?thesis by (simp add: grows_handleStopShare assms(2))
next
  case (TrackEnded t) then show ?thesis by (simp add: grows_handleStopShare assms(2) grows_same)
next
  case (ChooseFile f u) then show ?thesis by (simp add: grows_handleFileUpload assms(2,4))
next
  case (ClickStartShare d) then show ?thesis by (simp add: grows_handleStartShare assms(3))
next
  case (SubscribeStatus b) with assms(6) show ?thesis
    by (auto simp add: onSubscribeStatus_def grows_same grows_sendSignal)
next
  case (IceEvent pc c) then show ?thesis
    by (auto simp add: onicecandidate_def grows_same grows_sendSignal assms(5) split: option.splits)
next
  case (TrackEvent pc st) then show ?thesis
    by (auto simp add: ontrack_def onStreamReceived_def grows_same split: option.splits)
next
  case VideoPlay then show ?thesis
    by (auto simp add: onplay_def Let_def grows_same assms(4) intro!: grows_sendControlSignal)
next
  case VideoPause then show ?thesis
    by (auto simp add: onpause_def Let_def grows_same assms(4) intro!: grows_sendControlSignal)
next
  case (VideoSeeked t) then show ?thesis
    by (auto simp add: onseeked_def Let_def grows_same assms(4) intro!: grows_sendControlSignal
        split: option.splits)
next
  case IntervalTick then show ?thesis
    by (auto simp add: syncTick_def grows_same assms(4) intro!: grows_sendControlSignal
        split: option.splits)
qed (simp_all add: grows_same)

lemma handleSignal_emits:
  assumes "x \<in> set (emitted pf (Inbound p) s)"
  shows "(case sig_type x of
            Offer d \<Rightarrow> isHost s \<and> accepted s p \<and> sig_type p = ViewerReady \<and>
                       sig_to x = Some (sig_from p)
          | Answer d \<Rightarrow> \<not> isHost s \<and> accepted s p \<and> (\<exists>r. sig_type p = Offer r) \<and>
                        sig_to x = Some (sig_from p)
          | ViewerReady \<Rightarrow> \<not> isHost s \<and> accepted s p \<and> sig_type p = HostStarted \<and>
                           sig_to x = None
          | _ \<Rightarrow> True)"
proof (cases "accepted s p")
  case False
  then have "handleSignal pf p s = Done s"
    by (auto simp add: handleSignal_def accepted_def)
  with assms show ?thesis by (simp add: emitted_def)
next
  case True
  then have acc: "sig_from p \<noteq> peerId s"
      "\<not> (truthy (sig_to p) \<and> sig_to p \<noteq> Some (peerId s))"
    by (auto simp add: accepted_def)
  show ?thesis
  proof (cases "sig_type p")
    case ViewerReady
    show ?thesis
    proof (cases "isHost s")
      case False
      with ViewerReady acc assms show ?thesis
        by (auto simp add: handleSignal_def emitted_def)
    next
      case host: True
      let ?s1 = "onViewerReady (sig_from p) s"
      have hs: "handleSignal pf p s = sendOfferToViewer pf (sig_from p) ?s1"
        using acc ViewerReady host by (auto simp add: handleSignal_def)
      have p1: "peerId ?s1 = peerId s" by (simp add: onViewerReady_eq)
      from sendOfferToViewer_outbox [of pf "sig_from p" ?s1] assms
      show ?thesis
        by (auto simp add: emitted_def hs p1 onViewerReady_eq host True ViewerReady
            split: option.splits if_splits)
    qed
  next
    case (Offer d)
    with acc assms True show ?thesis
      by (auto simp add: handleSignal_def emitted_def createPeerConnection_def Let_def
          sendSignal_outbox split: option.splits if_splits)
  next
    case HostStarted
    with acc assms True show ?thesis
      by (auto simp add: handleSignal_def emitted_def sendSignal_outbox split: if_splits)
  next
    case HostStopped
    have "outbox (state_of (handleSignal pf p s)) = outbox s"
    proof (cases "isHost s")
      case True
      with HostStopped acc show ?thesis by (auto simp add: handleSignal_def)
    next
      case False
      have "grows (\<lambda>ty. False) s (state_of (handleSignal pf p s))"
        using HostStopped acc False
        by (auto simp add: handleSignal_def Let_def onHostStopped_def grows_same
            intro!: grows_and_then)
      then show ?thesis by (auto simp add: grows_def)
    qed
    with assms show ?thesis by (simp add: emitted_def)
  next
    case (Answer d)
    with acc assms show ?thesis
      by (auto simp add: handleSignal_def emitted_def split: option.splits if_splits)
  next
    case (IceCandidate c)
    with acc assms show ?thesis
      by (auto simp add: handleSignal_def emitted_def split: option.splits if_splits)
  next
    case (Control a)
    have "outbox (handleControlReceived pf a s) = outbox s"
      by (auto simp add: handleControlReceived_def Let_def split: option.splits control.splits)
    with Control acc assms show ?thesis
      by (auto simp add: handleSignal_def emitted_def split: if_splits)
  qed
qed

lemma grows_sendOfferToViewer: "grows (\<lambda>ty. True) s (state_of (sendOfferToViewer pf v s))"
  by (auto simp add: sendOfferToViewer_def createPeerConnection_def Let_def grows_def
      sendSignal_outbox split: option.splits)

lemma grows_handleSignal: "grows (\<lambda>ty. True) s (state_of (handleSignal pf p s))"
proof (cases "accepted s p")
  case False
  then have "handleSignal pf p s = Done s"
    by (auto simp add: handleSignal_def accepted_def)
  then show ?thesis by (simp add: grows_same)
next
  case True
  then have acc: "sig_from p \<noteq> peerId s"
      "\<not> (truthy (sig_to p) \<and> sig_to p \<noteq> Some (peerId s))"
    by (auto simp add: accepted_def)
  show ?thesis
  proof (cases "sig_type p")
    case ViewerReady
    have "grows (\<lambda>ty. True) s (onViewerReady (sig_from p) s)"
      by (simp add: onViewerReady_eq grows_def)
    with grows_sendOfferToViewer [of "onViewerReady (sig_from p) s" pf "sig_from p"]
    show ?thesis using acc ViewerReady
      by (auto simp add: handleSignal_def grows_same intro: grows_trans)
  next
    case (Offer d)
    with acc show ?thesis
      by (auto simp add: handleSignal_def createPeerConnection_def Let_def grows_def
          sendSignal_outbox split: option.splits)
  next
    case HostStarted
    with acc show ?thesis
      by (auto simp add: handleSignal_def grows_def sendSignal_outbox)
  next
    case HostStopped
    with acc show ?thesis
      by (auto simp add: handleSignal_def Let_def onHostStopped_def grows_same
          intro!: grows_and_then)
  next
    case (Answer d)
    with acc show ?thesis
      by (auto simp add: handleSignal_def grows_same split: option.splits)
  next
    case (IceCandidate c)
    with acc show ?thesis
      by (auto simp add: handleSignal_def grows_same split: option.splits)
  next
    case (Control a)
    have "grows (\<lambda>ty. True) s (handleControlReceived pf a s)"
      by (auto simp add: handleControlReceived_def Let_def grows_same
          split: option.splits control.splits)
    with Control acc show ?thesis
      by (auto simp add: handleSignal_def grows_same)
  qed
qed

lemma grows_step: "grows (\<lambda>ty. True) s (state_of (step pf ev s))"
proof (cases "\<exists>p. ev = Inbound p")
  case True
  then show ?thesis by (auto simp add: grows_handleSignal)
next
  case False
  then show ?thesis by (intro grows_step_other) auto
qed

lemma step_identity:
  "peerId (state_of (step pf ev s)) = peerId s" "isHost (state_of (step pf ev s)) = isHost s"
  using grows_step [of s pf ev] by (simp_all add: grows_def)

lemma run_identity:
  "peerId (run pf evs s) = peerId s" "isHost (run pf evs s) = isHost s"
  by (induction evs arbitrary: s; simp add: step_identity)+

lemma outbox_step: "outbox (state_of (step pf ev s)) = outbox s @ emitted pf ev s"
  using grows_step [of s pf ev] by (auto simp add: grows_def emitted_def)

lemma outbox_run:
  "x \<in> set (outbox (run pf evs s)) \<Longrightarrow>
   x \<in> set (outbox s) \<or>
   (\<exists>pre ev post. evs = pre @ ev # post \<and> x \<in> set (emitted pf ev (run pf pre s)))"
proof (induction evs arbitrary: s)
  case Nil
  then show ?case by simp
next
  case (Cons e es)
  from Cons.IH [of "state_of (step pf e s)"] Cons.prems
  consider "x \<in> set (outbox (state_of (step pf e s)))"
    | pre ev post where "es = pre @ ev # post"
        "x \<in> set (emitted pf ev (run pf pre (state_of (step pf e s))))"
    by auto
  then show ?case
  proof cases
    case 1
    then have "x \<in> set (outbox s) \<or> x \<in> set (emitted pf e (run pf [] s))"
      by (auto simp add: outbox_step)
    then show ?thesis by (metis append_Nil)
  next
    case 2
    then have "e # es = (e # pre) @ ev # post" "x \<in> set (emitted pf ev (run pf (e # pre) s))"
      by simp_all
    then show ?thesis by blast
  qed
qed

lemma negotiation_step:
  assumes "x \<in> set (emitted pf ev s)"
  shows "((\<exists>d. sig_type x = Offer d) \<longrightarrow>
            isHost s \<and> (\<exists>p. ev = Inbound p \<and> accepted s p \<and> sig_type p = ViewerReady \<and>
                             sig_to x = Some (sig_from p))) \<and>
         ((\<exists>d. sig_type x = Answer d) \<longrightarrow>
            \<not> isHost s \<and> (\<exists>p d. ev = Inbound p \<and> accepted s p \<and> sig_type p = Offer d \<and>
                               sig_to x = Some (sig_from p)))"
proof (cases "\<exists>p. ev = Inbound p")
  case True
  then obtain p where ev: "ev = Inbound p" by blast
  from handleSignal_emits [of x pf p s] assms ev show ?thesis
    by (auto split: signal_type.splits)
next
  case False
  have "grows (\<lambda>ty. (\<forall>d. ty \<noteq> Offer d) \<and> (\<forall>d. ty \<noteq> Answer d)) s (state_of (step pf ev s))"
    using False by (intro grows_step_other) auto
  from grows_emitted [OF this assms] show ?thesis by simp
qed

section \<open>Session-creating signals\<close>

lemma distinct_keys_at_most_one:
  "distinct (map fst al) \<Longrightarrow> length (filter (\<lambda>e. fst e = k) al) \<le> 1"
  by (induction al) (auto simp add: filter_empty_conv image_iff)

lemma sendOfferToViewer_registry:
  assumes "localStreamRef s \<noteq> None"
  shows "peerConnections (state_of (sendOfferToViewer pf v s)) =
           AList.update v (length (pcs s)) (peerConnections s) \<and>
         length (pcs (state_of (sendOfferToViewer pf v s))) = Suc (length (pcs s))"
  using assms
  by (auto simp add: sendOfferToViewer_def createPeerConnection_def Let_def split: option.splits)

lemma creates_session_registry:
  assumes "creates_session s m"
  shows "peerConnections (state_of (handleSignal pf m s)) =
           AList.update (sig_from m) (length (pcs s)) (peerConnections s) \<and>
         length (pcs (state_of (handleSignal pf m s))) = Suc (length (pcs s))"
proof (cases "sig_type m")
  case ViewerReady
  let ?s1 = "onViewerReady (sig_from m) s"
  have a: "localStreamRef ?s1 \<noteq> None" "pcs ?s1 = pcs s" "peerConnections ?s1 = peerConnections s"
    using assms ViewerReady by (simp_all add: onViewerReady_eq creates_session_def)
  have "handleSignal pf m s = sendOfferToViewer pf (sig_from m) ?s1"
    using assms ViewerReady by (auto simp add: handleSignal_def creates_session_def accepted_def)
  with sendOfferToViewer_registry [OF a(1), of pf "sig_from m"] a(2,3) show ?thesis by simp
next
  case (Offer d)
  with assms show ?thesis
    by (auto simp add: handleSignal_def creates_session_def accepted_def createPeerConnection_def
        Let_def split: option.splits)
qed (use assms in \<open>simp_all add: creates_session_def\<close>)

lemma filter_update_key:
  "distinct (map fst al) \<Longrightarrow> filter (\<lambda>e. fst e = k) (AList.update k v al) = [(k, v)]"
  by (induction al) (auto simp add: filter_empty_conv image_iff)

section \<open>Evaluating the concrete participants\<close>

lemmas model_defs =
  handleSignal_def sendOfferToViewer_def createPeerConnection_def upd_pc_def the_pc_def
  addTrack_def sendSignal_def sendControlSignal_def onViewerReady_def handleControlReceived_def
  onStreamReceived_def onHostStopped_def stopSharing_def startSharing_def handleStartShare_def
  handleStopShare_def handleFileUpload_def onplay_def onpause_def onseeked_def syncTick_def
  onSubscribeStatus_def effectCleanup_def onicecandidate_def ontrack_def bound_video_def
  bind_onended_def play_def new_pc_def browser_def element_def fresh_def screen_stream_def
  from_peer_def to_peer_def Let_def

lemma subscribed_viewer_eq:
  "subscribed_viewer =
     (fresh ''v'' False)\<lparr>channelRef := Some 0, outbox := [from_peer ''v'' ViewerReady]\<rparr>"
  by (simp add: subscribed_viewer_def model_defs)

lemma screen_host_eq:
  "screen_host =
     (fresh ''h'' True)
       \<lparr>peerConnections := [(''v'', 0)], channelRef := Some 0,
        localStreamRef := Some screen_stream, isSharing := True, hasStream := True,
        localVideoRef := Some (element\<lparr>paused := False, v_srcObject := Some screen_stream\<rparr>),
        onended := {0},
        pcs := [(new_pc ''v'')\<lparr>pc_tracks := screen_stream, pc_local := Some ''offer-sdp''\<rparr>],
        outbox := [from_peer ''h'' HostStarted, to_peer ''h'' ''v'' (Offer ''offer-sdp'')]\<rparr>"
  by (simp add: screen_host_def screen_events_def model_defs)

lemma answered_host_eq:
  "answered_host =
     screen_host\<lparr>pcs := [(new_pc ''v'')\<lparr>pc_tracks := screen_stream,
                                         pc_local := Some ''offer-sdp'',
                                         pc_remote_desc := Some ''answer-sdp''\<rparr>]\<rparr>"
  by (simp add: answered_host_def screen_host_def screen_events_def model_defs)

lemma file_host_eq:
  "file_host =
     (fresh ''h'' True)
       \<lparr>channelRef := Some 0, isSharing := True, hasStream := True,
        videoFileUrl := Some ''https://cdn/movie.mp4'', streamMode := File,
        localVideoRef :=
          Some (element\<lparr>currentTime := 42, paused := False, v_src := ''https://cdn/movie.mp4'',
                         v_muted := False, v_controls := True, v_bound := True\<rparr>),
        syncInterval := True,
        outbox := [from_peer ''h'' (Control (FileUrl ''https://cdn/movie.mp4'')),
                   from_peer ''h'' (Control Play), from_peer ''h'' (Control (Seek 42))]\<rparr>"
  by (simp add: file_host_def model_defs)

text \<open>The doubles written \<open>10.2\<close>, \<open>0.084\<close> and \<open>0.384\<close>.\<close>

lemma double_10_2: "fl 10.2 = 2871044762448691 / 2 ^ 48"
  by code_simp

lemma double_0_084: "fl 0.084 = 6052837899185947 / 2 ^ 56"
  by code_simp

lemma double_0_384: "fl 0.384 = 3458764513820541 / 2 ^ 53"
  by code_simp

section \<open>The claims\<close>

text \<open>
  C2, as the code has it. For every \<open>sync{time: t}\<close> control signal a viewer accepts while
  its element shows local time \<open>currentTime vid\<close>: the local time becomes \<open>t\<close> exactly when
  the drift computed in double arithmetic exceeds the double \<open>0.3\<close> and the element is not
  paused; on the exact values of the two times that is
  \<open>\<bar>currentTime vid - t\<bar> \<ge> 10808639105689191 / 2 ^ 55\<close>, the midpoint between the double
  \<open>0.3\<close> and the next double (about \<open>0.3 + 1.7e-17\<close>). In every other case nothing changes.
  The handler returns, and nothing but the element's time is touched.
\<close>

theorem sync_drift_correction:
  assumes "\<not> isHost s" and "accepted s m" and "sig_type m = Control (Sync t)"
    and "videoRef s = Some vid"
  shows "handleSignal pf m s =
           Done (if 10808639105689191 / 2 ^ 55 \<le> \<bar>currentTime vid - t\<bar> \<and> \<not> paused vid
                 then s\<lparr>videoRef := Some (vid\<lparr>currentTime := t\<rparr>)\<rparr> else s)"
proof -
  have "handleSignal pf m s = Done (handleControlReceived pf (Sync t) s)"
    using assms by (auto simp add: handleSignal_def accepted_def)
  also have "handleControlReceived pf (Sync t) s =
      (if js_gt (js_abs (js_sub (currentTime vid) t)) (fl (3/10)) \<and> \<not> paused vid
       then s\<lparr>videoRef := Some (vid\<lparr>currentTime := t\<rparr>)\<rparr> else s)"
    using assms by (simp add: handleControlReceived_def Let_def)
  finally show ?thesis by (simp only: drift_test)
qed

text \<open>
  At local time 10.0: \<open>sync\<close> with the double 10.2 changes nothing, \<open>sync\<close> with 10.5 snaps
  to 10.5.
\<close>

theorem sync_drift_correction_witness:
  "handleSignal browser (from_peer ''h'' (Control (Sync (fl 10.2)))) (watching 10 False) =
     Done (watching 10 False) \<and>
   handleSignal browser (from_peer ''h'' (Control (Sync 10.5))) (watching 10 False) =
     Done (watching 10.5 False)"
proof -
  have h: "\<not> isHost (watching 10 False)"
    "accepted (watching 10 False) (from_peer ''h'' (Control (Sync (fl 10.2))))"
    "accepted (watching 10 False) (from_peer ''h'' (Control (Sync 10.5)))"
    "videoRef (watching 10 False) = Some (element\<lparr>currentTime := 10, paused := False\<rparr>)"
    by (simp_all add: watching_def fresh_def from_peer_def accepted_def)
  have ty: "sig_type (from_peer ''h'' (Control (Sync x))) = Control (Sync x)" for x
    by (simp add: from_peer_def)
  have a: "handleSignal browser (from_peer ''h'' (Control (Sync (fl 10.2)))) (watching 10 False) =
      Done (watching 10 False)"
    using sync_drift_correction [OF h(1) h(2) ty h(4), of browser]
    unfolding double_10_2 by simp
  have b: "handleSignal browser (from_peer ''h'' (Control (Sync 10.5))) (watching 10 False) =
      Done (watching 10.5 False)"
    using sync_drift_correction [OF h(1) h(3) ty h(4), of browser]
    by (simp add: watching_def)
  from a b show ?thesis by simp
qed

text \<open>
  C2 as stated fails: the local time is the double 0.084, the host's time the double 0.384
  and playback is not paused. The two times differ by more than 0.3, yet the difference
  rounds to the double \<open>0.3\<close> itself, the test \<open>drift > 0.3\<close> is false and the local time
  stays.
\<close>

theorem drift_above_three_tenths_not_corrected:
  "3 / 10 < \<bar>fl 0.084 - fl 0.384\<bar> \<and>
   \<not> paused (element\<lparr>currentTime := fl 0.084, paused := False\<rparr>) \<and>
   handleSignal browser (from_peer ''h'' (Control (Sync (fl 0.384)))) (watching (fl 0.084) False) =
     Done (watching (fl 0.084) False)"
  unfolding double_0_084 double_0_384
  by (simp add: handleSignal_def handleControlReceived_def watching_def fresh_def
      from_peer_def drift_test Let_def)

text \<open>
  C3. For every \<open>viewer-ready\<close> signal a host accepts while it shares a file (stream mode
  \<open>file\<close>, sharing, a file URL set) and is subscribed: the control messages it emits are
  exactly \<open>file-url{url}\<close>, then \<open>seek{time: currentTime}\<close>, then \<open>play\<close> (the last only if
  local playback is not paused); every signal emitted in that step is addressed to the
  originating viewer, none is a broadcast; and when no capture stream is held these
  three are all that is emitted.
\<close>

theorem late_join_reconstruction:
  assumes "isHost s" and "accepted s m" and "sig_type m = ViewerReady"
    and "streamMode s = File" and "isSharing s" and "videoFileUrl s = Some url" and "url \<noteq> []"
    and "channelRef s = Some ch" and "localVideoRef s = Some v"
  shows "filter is_control (emitted pf (Inbound m) s) = late_join_burst s (sig_from m) url v \<and>
         (\<forall>x \<in> set (emitted pf (Inbound m) s). sig_to x = Some (sig_from m)) \<and>
         (localStreamRef s = None \<longrightarrow>
            emitted pf (Inbound m) s = late_join_burst s (sig_from m) url v)"
proof -
  let ?s1 = "onViewerReady (sig_from m) s"
  have hs: "handleSignal pf m s = sendOfferToViewer pf (sig_from m) ?s1"
    using assms by (auto simp add: handleSignal_def accepted_def)
  have ob1: "outbox ?s1 = outbox s @ late_join_burst s (sig_from m) url v"
    using assms by (simp add: onViewerReady_eq late_join_burst_def)
  have p1: "peerId ?s1 = peerId s" "localStreamRef ?s1 = localStreamRef s"
    by (simp_all add: onViewerReady_eq)
  have ctl: "filter is_control (late_join_burst s (sig_from m) url v) =
               late_join_burst s (sig_from m) url v"
    by (simp add: late_join_burst_def is_control_def)
  have to: "\<forall>x \<in> set (late_join_burst s (sig_from m) url v). sig_to x = Some (sig_from m)"
    by (simp add: late_join_burst_def)
  from sendOfferToViewer_outbox [of pf "sig_from m" ?s1]
  show ?thesis
  proof
    assume "outbox (state_of (sendOfferToViewer pf (sig_from m) ?s1)) = outbox ?s1"
    then have "emitted pf (Inbound m) s = late_join_burst s (sig_from m) url v"
      by (simp add: emitted_def hs ob1)
    with ctl to show ?thesis by simp
  next
    assume "\<exists>d. localStreamRef ?s1 \<noteq> None \<and>
              outbox (state_of (sendOfferToViewer pf (sig_from m) ?s1)) =
                outbox ?s1 @ [\<lparr>sig_type = Offer d, sig_from = peerId ?s1,
                               sig_to = Some (sig_from m)\<rparr>]"
    then obtain d where d: "localStreamRef s \<noteq> None"
        "emitted pf (Inbound m) s =
           late_join_burst s (sig_from m) url v @
           [\<lparr>sig_type = Offer d, sig_from = peerId s, sig_to = Some (sig_from m)\<rparr>]"
      by (auto simp add: emitted_def hs ob1 p1)
    with ctl to show ?thesis by (auto simp add: is_control_def)
  qed
qed

text \<open>
  The host plays a file, 42 seconds in and not paused, when \<open>v\<close> announces itself: \<open>v\<close> alone
  gets \<open>file-url\<close>, \<open>seek{42}\<close>, \<open>play\<close>.
\<close>

theorem late_join_reconstruction_witness:
  "emitted browser (Inbound (from_peer ''v'' ViewerReady)) file_host =
     [to_peer ''h'' ''v'' (Control (FileUrl ''https://cdn/movie.mp4'')),
      to_peer ''h'' ''v'' (Control (Seek 42)),
      to_peer ''h'' ''v'' (Control Play)]"
proof -
  have "emitted browser (Inbound (from_peer ''v'' ViewerReady)) file_host =
          late_join_burst file_host (sig_from (from_peer ''v'' ViewerReady))
            ''https://cdn/movie.mp4''
            (element\<lparr>currentTime := 42, paused := False, v_src := ''https://cdn/movie.mp4'',
                      v_muted := False, v_controls := True, v_bound := True\<rparr>)"
    using late_join_reconstruction [of file_host "from_peer ''v'' ViewerReady"
        "''https://cdn/movie.mp4''" 0
        "element\<lparr>currentTime := 42, paused := False, v_src := ''https://cdn/movie.mp4'',
                  v_muted := False, v_controls := True, v_bound := True\<rparr>" browser]
    by (simp add: file_host_eq fresh_def from_peer_def accepted_def)
  then show ?thesis
    by (simp add: late_join_burst_def file_host_eq fresh_def from_peer_def to_peer_def element_def)
qed

text \<open>
  C4, as the code has it. For every inbound signal of every kind: if its \<open>from\<close> equals the
  local peer identity, or its \<open>to\<close> is a non-empty string that differs from the local peer
  identity, handling it changes nothing and emits nothing. (The guard tests \<open>to\<close> for
  truthiness, so an empty \<open>to\<close> counts as no addressee.)
\<close>

theorem foreign_or_own_signal_discarded:
  assumes "sig_from m = peerId s \<or> (\<exists>q. sig_to m = Some q \<and> q \<noteq> [] \<and> q \<noteq> peerId s)"
  shows "step pf (Inbound m) s = Done s \<and> emitted pf (Inbound m) s = []"
  using assms by (auto simp add: handleSignal_def emitted_def)

theorem foreign_or_own_signal_discarded_witness:
  "step browser (Inbound (to_peer ''h'' ''w'' HostStarted)) subscribed_viewer =
     Done subscribed_viewer \<and>
   step browser (Inbound (from_peer ''v'' HostStarted)) subscribed_viewer =
     Done subscribed_viewer"
  using
    foreign_or_own_signal_discarded [of "to_peer ''h'' ''w'' HostStarted" subscribed_viewer browser]
    foreign_or_own_signal_discarded [of "from_peer ''v'' HostStarted" subscribed_viewer browser]
  by (simp add: subscribed_viewer_eq fresh_def from_peer_def to_peer_def)

text \<open>
  C4 as stated fails: a \<open>host-started\<close> signal whose \<open>to\<close> is set to the empty string, which
  differs from the viewer's identity \<open>v\<close>, is handled: the viewer answers \<open>viewer-ready\<close>.
\<close>

theorem empty_addressee_not_discarded:
  "sig_to (to_peer ''h'' [] HostStarted) = Some [] \<and>
   peerId subscribed_viewer = ''v'' \<and>
   sig_from (to_peer ''h'' [] HostStarted) = ''h'' \<and>
   emitted browser (Inbound (to_peer ''h'' [] HostStarted)) subscribed_viewer =
     [viewer_ready subscribed_viewer]"
  by (simp add: subscribed_viewer_eq emitted_def handleSignal_def sendSignal_def to_peer_def
      from_peer_def fresh_def viewer_ready_def)

text \<open>
  C8. For every \<open>ice-candidate\<close> signal a participant accepts: if no session is registered
  for the sender, the state is unchanged; if one is, the candidate is handed to that
  session's connection whatever its negotiation state, and it is the platform's verdict
  alone that decides whether the candidate is recorded. Either way the handler returns
  (a rejected candidate is swallowed), the registry is the same, no connection is closed
  and nothing is emitted.
\<close>

theorem ice_candidate_handling:
  assumes "accepted s m" and "sig_type m = IceCandidate c"
  shows "(map_of (peerConnections s) (sig_from m) = None \<longrightarrow> handleSignal pf m s = Done s) \<and>
         (\<forall>pc. map_of (peerConnections s) (sig_from m) = Some pc \<longrightarrow>
            handleSignal pf m s =
              Done (if addIceCandidate pf (the_pc s pc) c
                    then upd_pc pc (\<lambda>p. p\<lparr>pc_candidates := pc_candidates p @ [c]\<rparr>) s else s)) \<and>
         returned (handleSignal pf m s) \<and>
         peerConnections (state_of (handleSignal pf m s)) = peerConnections s \<and>
         map pc_closed (pcs (state_of (handleSignal pf m s))) = map pc_closed (pcs s) \<and>
         outbox (state_of (handleSignal pf m s)) = outbox s"
  using assms
  by (auto simp add: handleSignal_def accepted_def upd_pc_closed split: option.splits)

text \<open>
  At the sharing host: a candidate from the unknown peer \<open>w\<close> is dropped; a candidate from
  \<open>v\<close> before \<open>v\<close>'s answer is rejected by the browser and swallowed; after the answer it
  is recorded.
\<close>

theorem ice_candidate_handling_witness:
  "handleSignal browser (to_peer ''w'' ''h'' (IceCandidate ''c'')) screen_host = Done screen_host \<and>
   handleSignal browser (to_peer ''v'' ''h'' (IceCandidate ''c'')) screen_host = Done screen_host \<and>
   handleSignal browser (to_peer ''v'' ''h'' (IceCandidate ''c'')) answered_host =
     Done (upd_pc 0 (\<lambda>p. p\<lparr>pc_candidates := pc_candidates p @ [''c'']\<rparr>) answered_host)"
  using
    ice_candidate_handling [of screen_host "to_peer ''w'' ''h'' (IceCandidate ''c'')" "''c'' " browser]
    ice_candidate_handling [of screen_host "to_peer ''v'' ''h'' (IceCandidate ''c'')" "''c'' " browser]
    ice_candidate_handling [of answered_host "to_peer ''v'' ''h'' (IceCandidate ''c'')" "''c'' " browser]
  by (simp add: answered_host_eq screen_host_eq fresh_def to_peer_def accepted_def the_pc_def
      browser_def new_pc_def)

text \<open>
  C10. When the host holds no capture stream (its media source is a file), handling an
  accepted \<open>viewer-ready\<close> is just the page's late-join callback: the handler returns, the
  registry and the set of constructed connections are unchanged, and every signal
  emitted is a control message addressed to that viewer, so no offer is emitted.
\<close>

theorem file_mode_viewer_ready_no_session:
  assumes "isHost s" and "accepted s m" and "sig_type m = ViewerReady" and "localStreamRef s = None"
  shows "handleSignal pf m s = Done (onViewerReady (sig_from m) s) \<and>
         peerConnections (state_of (handleSignal pf m s)) = peerConnections s \<and>
         pcs (state_of (handleSignal pf m s)) = pcs s \<and>
         (\<forall>x \<in> set (emitted pf (Inbound m) s).
            (\<forall>d. sig_type x \<noteq> Offer d) \<and> is_control x \<and> sig_to x = Some (sig_from m))"
  using assms
  by (auto simp add: handleSignal_def accepted_def sendOfferToViewer_def onViewerReady_eq
      emitted_def is_control_def split: option.splits)

theorem file_mode_viewer_ready_no_session_witness:
  "handleSignal browser (from_peer ''v'' ViewerReady) file_host =
     Done (onViewerReady ''v'' file_host) \<and>
   peerConnections (state_of (handleSignal browser (from_peer ''v'' ViewerReady) file_host)) = [] \<and>
   pcs (state_of (handleSignal browser (from_peer ''v'' ViewerReady) file_host)) = []"
proof -
  have h: "isHost file_host" "accepted file_host (from_peer ''v'' ViewerReady)"
    "sig_type (from_peer ''v'' ViewerReady) = ViewerReady" "localStreamRef file_host = None"
    by (simp_all add: file_host_eq fresh_def from_peer_def accepted_def)
  have r: "peerConnections file_host = []" "pcs file_host = []"
    "sig_from (from_peer ''v'' ViewerReady) = ''v''"
    by (simp_all add: file_host_eq fresh_def from_peer_def)
  from file_mode_viewer_ready_no_session [OF h, of browser] show ?thesis
    unfolding r by blast
qed







text \<open>
  C6. In every execution of a participant, started fresh in either role: an \<open>offer\<close> found
  in the outbox was emitted by a host, in the very step that handled a \<open>viewer-ready\<close>
  signal it accepted, and is addressed to the sender of that signal; an \<open>answer\<close> found in
  the outbox was emitted by a viewer, in the very step that handled an \<open>offer\<close> it accepted
  (one not its own and not addressed to another peer), and is addressed to the sender of
  that offer. Hence a viewer never emits an offer and a host never emits an answer.
\<close>

theorem negotiation_roles:
  assumes "x \<in> set (outbox (run pf evs (fresh pid host)))"
  shows "((\<exists>d. sig_type x = Offer d) \<longrightarrow>
            host \<and> (\<exists>pre p post. evs = pre @ Inbound p # post \<and>
                       accepted (run pf pre (fresh pid host)) p \<and> sig_type p = ViewerReady \<and>
                       sig_to x = Some (sig_from p) \<and>
                       x \<in> set (emitted pf (Inbound p) (run pf pre (fresh pid host))))) \<and>
         ((\<exists>d. sig_type x = Answer d) \<longrightarrow>
            \<not> host \<and> (\<exists>pre p d post. evs = pre @ Inbound p # post \<and>
                       accepted (run pf pre (fresh pid host)) p \<and> sig_type p = Offer d \<and>
                       sig_to x = Some (sig_from p) \<and>
                       x \<in> set (emitted pf (Inbound p) (run pf pre (fresh pid host)))))"
proof -
  from outbox_run [OF assms] obtain pre ev post where
    d: "evs = pre @ ev # post" "x \<in> set (emitted pf ev (run pf pre (fresh pid host)))"
    by (auto simp add: fresh_def)
  have h: "isHost (run pf pre (fresh pid host)) = host"
    by (simp add: run_identity fresh_def)
  from negotiation_step [OF d(2)] d h show ?thesis by blast
qed

text \<open>
  The offer in the sharing host's outbox: the host is a host, and the run contains the
  \<open>viewer-ready\<close> of \<open>v\<close>, to whom the offer is addressed.
\<close>

theorem negotiation_roles_witness:
  "to_peer ''h'' ''v'' (Offer ''offer-sdp'') \<in> set (outbox (run browser screen_events (fresh ''h'' True))) \<and>
   (\<exists>pre p post. screen_events = pre @ Inbound p # post \<and>
      accepted (run browser pre (fresh ''h'' True)) p \<and> sig_type p = ViewerReady \<and>
      sig_to (to_peer ''h'' ''v'' (Offer ''offer-sdp'')) = Some (sig_from p))"
proof -
  have m: "to_peer ''h'' ''v'' (Offer ''offer-sdp'') \<in>
             set (outbox (run browser screen_events (fresh ''h'' True)))"
    unfolding screen_host_def [symmetric] by (simp add: screen_host_eq)
  have o: "\<exists>d. sig_type (to_peer ''h'' ''v'' (Offer ''offer-sdp'')) = Offer d"
    by (simp add: to_peer_def)
  from negotiation_roles [OF m] o m show ?thesis by blast
qed

text \<open>
  C7, as the code has it. On each SUBSCRIBED status of the subscription a subscribed
  viewer emits exactly one \<open>viewer-ready\<close> broadcast and a host emits nothing. For every
  \<open>host-started\<close> signal it accepts, a subscribed viewer emits exactly one more
  \<open>viewer-ready\<close> broadcast. A \<open>viewer-ready\<close> emitted in any step of any participant is that
  broadcast, emitted by a viewer, alone in its step, and the step is either a SUBSCRIBED
  status or the handling of an accepted \<open>host-started\<close>: no other event makes a viewer emit
  it, and a host never emits it.
\<close>

theorem viewer_ready_triggers:
  "(channelRef s \<noteq> None \<longrightarrow>
      emitted pf (SubscribeStatus True) s = (if isHost s then [] else [viewer_ready s])) \<and>
   (channelRef s \<noteq> None \<and> \<not> isHost s \<and> accepted s p \<and> sig_type p = HostStarted \<longrightarrow>
      emitted pf (Inbound p) s = [viewer_ready s]) \<and>
   (\<forall>x \<in> set (emitted pf ev s). sig_type x = ViewerReady \<longrightarrow>
      \<not> isHost s \<and> x = viewer_ready s \<and> emitted pf ev s = [viewer_ready s] \<and>
      (ev = SubscribeStatus True \<or>
       (\<exists>p. ev = Inbound p \<and> accepted s p \<and> sig_type p = HostStarted)))"
proof -
  have a: "channelRef s \<noteq> None \<longrightarrow>
      emitted pf (SubscribeStatus True) s = (if isHost s then [] else [viewer_ready s])"
    by (auto simp add: emitted_def onSubscribeStatus_def sendSignal_outbox viewer_ready_def)
  have f: "channelRef s \<noteq> None \<and> \<not> isHost s \<and> accepted s p \<and> sig_type p = HostStarted \<longrightarrow>
      emitted pf (Inbound p) s = [viewer_ready s]"
    by (auto simp add: emitted_def handleSignal_def accepted_def sendSignal_outbox
        viewer_ready_def)
  have b: "\<not> isHost s \<and> x = viewer_ready s \<and> emitted pf ev s = [viewer_ready s] \<and>
      (ev = SubscribeStatus True \<or>
       (\<exists>p. ev = Inbound p \<and> accepted s p \<and> sig_type p = HostStarted))"
    if x: "x \<in> set (emitted pf ev s)" and vr: "sig_type x = ViewerReady" for x
  proof (cases "\<exists>p. ev = Inbound p")
    case True
    then obtain p where ev: "ev = Inbound p" by blast
    from handleSignal_emits [of x pf p s] x vr ev
    have a: "\<not> isHost s" "accepted s p" "sig_type p = HostStarted" by auto
    then have em: "emitted pf ev s = (if channelRef s = None then [] else [viewer_ready s])"
      by (auto simp add: ev emitted_def handleSignal_def accepted_def sendSignal_outbox
          viewer_ready_def)
    with x have "channelRef s \<noteq> None" by (cases "channelRef s = None") simp_all
    with em have e1: "emitted pf ev s = [viewer_ready s]" by simp
    with x have "x = viewer_ready s" by simp
    with a ev e1 show ?thesis by blast
  next
    case False
    have g: "grows (\<lambda>ty. ty = ViewerReady \<longrightarrow> ev = SubscribeStatus True \<and> \<not> isHost s) s
            (state_of (step pf ev s))"
      using False by (intro grows_step_other) auto
    from grows_emitted [OF g x] vr have ev: "ev = SubscribeStatus True" "\<not> isHost s" by auto
    then have em: "emitted pf ev s = (if channelRef s = None then [] else [viewer_ready s])"
      by (auto simp add: emitted_def onSubscribeStatus_def sendSignal_outbox viewer_ready_def)
    with x have "channelRef s \<noteq> None" by (cases "channelRef s = None") simp_all
    with em have e1: "emitted pf ev s = [viewer_ready s]" by simp
    with x have "x = viewer_ready s" by simp
    with ev e1 show ?thesis by blast
  qed
  from a f b show ?thesis by blast
qed

text \<open>
  The subscribed viewer: a further SUBSCRIBED status gives one \<open>viewer-ready\<close>, and so does
  a \<open>host-started\<close> from \<open>h\<close>.
\<close>

theorem viewer_ready_triggers_witness:
  "emitted browser (SubscribeStatus True) subscribed_viewer = [from_peer ''v'' ViewerReady] \<and>
   emitted browser (Inbound (from_peer ''h'' HostStarted)) subscribed_viewer =
     [from_peer ''v'' ViewerReady] \<and>
   accepted subscribed_viewer (from_peer ''h'' HostStarted)"
proof -
  have c: "channelRef subscribed_viewer \<noteq> None" "\<not> isHost subscribed_viewer"
    by (simp_all add: subscribed_viewer_eq fresh_def)
  have v: "viewer_ready subscribed_viewer = from_peer ''v'' ViewerReady"
    by (simp add: subscribed_viewer_eq fresh_def viewer_ready_def from_peer_def)
  have t: "sig_type (from_peer ''h'' HostStarted) = HostStarted"
    by (simp add: from_peer_def)
  have acc: "accepted subscribed_viewer (from_peer ''h'' HostStarted)"
    by (simp add: accepted_def subscribed_viewer_eq fresh_def from_peer_def)
  note inst = viewer_ready_triggers
    [of subscribed_viewer browser "from_peer ''h'' HostStarted"]
  from inst c have a: "emitted browser (SubscribeStatus True) subscribed_viewer =
      [viewer_ready subscribed_viewer]"
    by simp
  from inst c acc t have b:
    "emitted browser (Inbound (from_peer ''h'' HostStarted)) subscribed_viewer =
      [viewer_ready subscribed_viewer]"
    by blast
  from a b acc show ?thesis unfolding v by simp
qed

text \<open>
  C7 as stated fails: a viewer that subscribes once and then receives \<open>host-started\<close> has
  emitted \<open>viewer-ready\<close> twice within that one subscription.
\<close>

theorem viewer_ready_twice_in_one_subscription:
  "outbox (run browser
             [EffectSetup 0, SubscribeStatus True, Inbound (from_peer ''h'' HostStarted)]
             (fresh ''v'' False)) =
     [from_peer ''v'' ViewerReady, from_peer ''v'' ViewerReady]"
  by (simp add: model_defs)

text \<open>
  C1, as the code has it. In every execution the registry holds at most one session for
  every peer identity \<open>P\<close>. Handling a session-creating signal (an accepted \<open>viewer-ready\<close>
  at a host holding a capture stream, an accepted \<open>offer\<close> at a viewer) always constructs
  one more connection, and that new connection becomes the one registry entry of the
  sending peer, replacing any earlier one.
\<close>

theorem registry_one_session_per_peer:
  "length (sessions_of P (run pf evs (fresh pid host))) \<le> 1 \<and>
   (creates_session (run pf evs (fresh pid host)) m \<longrightarrow>
      length (pcs (run pf (evs @ [Inbound m]) (fresh pid host))) =
        Suc (length (pcs (run pf evs (fresh pid host)))) \<and>
      sessions_of (sig_from m) (run pf (evs @ [Inbound m]) (fresh pid host)) =
        [(sig_from m, length (pcs (run pf evs (fresh pid host))))])"
proof -
  let ?s = "run pf evs (fresh pid host)"
  have ok: "registry_ok ?s" by (simp add: registry_ok_run registry_ok_fresh)
  then have d: "distinct (map fst (peerConnections ?s))" by (simp add: registry_ok_def)
  have a: "length (sessions_of P ?s) \<le> 1"
    unfolding sessions_of_def using d by (rule distinct_keys_at_most_one)
  have run_snoc: "run pf (es @ [Inbound m]) s0 = state_of (handleSignal pf m (run pf es s0))"
    for es s0
    by (induction es arbitrary: s0) simp_all
  have b: "length (pcs (run pf (evs @ [Inbound m]) (fresh pid host))) = Suc (length (pcs ?s)) \<and>
      sessions_of (sig_from m) (run pf (evs @ [Inbound m]) (fresh pid host)) =
        [(sig_from m, length (pcs ?s))]" if "creates_session ?s m"
    using creates_session_registry [OF that, of pf] d
    by (simp add: run_snoc sessions_of_def filter_update_key)
  from a b show ?thesis by blast
qed

text \<open>
  The sharing host, already holding a session for \<open>v\<close>, receives \<open>viewer-ready\<close> from \<open>v\<close>
  again: a second connection is constructed and is now the one entry for \<open>v\<close>.
\<close>

theorem registry_one_session_per_peer_witness:
  "creates_session (run browser screen_events (fresh ''h'' True)) (from_peer ''v'' ViewerReady) \<and>
   length (pcs (run browser (screen_events @ [Inbound (from_peer ''v'' ViewerReady)])
                  (fresh ''h'' True))) = 2 \<and>
   sessions_of ''v'' (run browser (screen_events @ [Inbound (from_peer ''v'' ViewerReady)])
                        (fresh ''h'' True)) = [(''v'', 1)]"
proof -
  have cs: "creates_session (run browser screen_events (fresh ''h'' True))
              (from_peer ''v'' ViewerReady)"
    unfolding screen_host_def [symmetric]
    by (simp add: screen_host_eq creates_session_def accepted_def from_peer_def fresh_def)
  have l: "length (pcs (run browser screen_events (fresh ''h'' True))) = 1"
    unfolding screen_host_def [symmetric] by (simp add: screen_host_eq)
  have f: "sig_from (from_peer ''v'' ViewerReady) = ''v''" by (simp add: from_peer_def)
  from registry_one_session_per_peer
         [of "''v''" browser screen_events "''h''" True "from_peer ''v'' ViewerReady"] cs
  show ?thesis unfolding l f by simp
qed

text \<open>
  C1 as stated fails: after a duplicate \<open>viewer-ready\<close> from \<open>v\<close> the host has constructed two
  connections for \<open>v\<close>, both open, the registry holding the second; and a viewer handling
  a duplicate \<open>offer\<close> from \<open>h\<close> has likewise constructed two connections for \<open>h\<close>.
\<close>

theorem duplicate_signal_allocates_again:
  "map pc_remote (allocated_for ''v''
     (run browser (screen_events @ [Inbound (from_peer ''v'' ViewerReady)]) (fresh ''h'' True))) =
     [''v'', ''v''] \<and>
   map pc_closed (allocated_for ''v''
     (run browser (screen_events @ [Inbound (from_peer ''v'' ViewerReady)]) (fresh ''h'' True))) =
     [False, False] \<and>
   peerConnections
     (run browser (screen_events @ [Inbound (from_peer ''v'' ViewerReady)]) (fresh ''h'' True)) =
     [(''v'', 1)] \<and>
   map pc_remote (allocated_for ''h''
     (run browser
        [EffectSetup 0, Inbound (to_peer ''h'' ''v'' (Offer ''offer-sdp'')),
         Inbound (to_peer ''h'' ''v'' (Offer ''offer-sdp''))]
        (fresh ''v'' False))) = [''h'', ''h'']"
  by (simp add: screen_events_def allocated_for_def model_defs)

end
